theory Spec2Isabelle
  imports Complex_Main "HOL-Library.Monad_Syntax"
begin

section \<open>Data model (types.ts, constants.ts)\<close>

text \<open>
  JavaScript numbers are modelled as real numbers: every arithmetic operation of the
  source is the exact operation on \<^typ>\<open>real\<close>. A division whose divisor is zero gives
  an infinity or a NaN in the source; the model writes that case out as \<open>None\<close>
  (``not a finite number''), so that \<open>Some m\<close> always is a value obtained without any
  division by zero.
\<close>

datatype FilterType = LowPass | HighPass | BandPass | LowShelf | HighShelf | Peaking | Notch

record DynamicSettings =
  dyn_enabled :: bool
  threshold :: real
  range :: real
  attack :: real
  release :: real
  ratio :: real
  knee :: real
  mix :: real

record EqBand =
  band_id :: string
  enabled :: bool
  frequency :: real
  gain :: real
  q :: real
  band_type :: FilterType
  dynamic :: DynamicSettings
  color :: string

definition MIN_FREQ :: real where "MIN_FREQ = 20"
definition MAX_FREQ :: real where "MAX_FREQ = 20000"
definition MIN_DB :: real where "MIN_DB = -30"
definition MAX_DB :: real where "MAX_DB = 30"
definition MIN_Q :: real where "MIN_Q = 1 / 10"
definition MAX_Q :: real where "MAX_Q = 18"

definition BAND_COLORS :: "string list" where
  "BAND_COLORS = [''#ef4444'', ''#eab308'', ''#22c55e'', ''#06b6d4'', ''#3b82f6'',
     ''#a855f7'', ''#f472b6'']"

definition DEFAULT_DYNAMIC_SETTINGS :: DynamicSettings where
  "DEFAULT_DYNAMIC_SETTINGS =
     \<lparr>dyn_enabled = False, threshold = -18, range = -6, attack = 10, release = 100,
      ratio = 2, knee = 6, mix = 100\<rparr>"

text \<open>
  \<open>createDefaultBand\<close>: the colour index \<open>Math.floor(Math.random() * 7)\<close> is the
  parameter \<open>k\<close>.
\<close>

definition createDefaultBand :: "string \<Rightarrow> real \<Rightarrow> nat \<Rightarrow> EqBand" where
  "createDefaultBand i freq k =
     \<lparr>band_id = i, enabled = True, frequency = freq, gain = 0, q = 1,
      band_type = Peaking, dynamic = DEFAULT_DYNAMIC_SETTINGS, color = BAND_COLORS ! k\<rparr>"

section \<open>Magnitude response (EqVisualizer)\<close>

definition Fs :: real where "Fs = 48000"

text \<open>
  The \<open>switch\<close> of \<open>getBiquadMagnitude\<close>: the six coefficients
  \<open>(b0, b1, b2, a0, a1, a2)\<close> from \<open>cosw0\<close>, \<open>alpha\<close> and \<open>A\<close>. The \<open>default\<close> branch
  of the source is unreachable for a value of the enumeration.
\<close>

definition biquadCoefficients ::
  "FilterType \<Rightarrow> real \<Rightarrow> real \<Rightarrow> real \<Rightarrow> real \<times> real \<times> real \<times> real \<times> real \<times> real" where
  "biquadCoefficients type cosw0 alpha A =
     (case type of
        LowPass \<Rightarrow>
          ((1 - cosw0) / 2, 1 - cosw0, (1 - cosw0) / 2, 1 + alpha, -2 * cosw0, 1 - alpha)
      | HighPass \<Rightarrow>
          ((1 + cosw0) / 2, - (1 + cosw0), (1 + cosw0) / 2, 1 + alpha, -2 * cosw0, 1 - alpha)
      | BandPass \<Rightarrow>
          (alpha, 0, - alpha, 1 + alpha, -2 * cosw0, 1 - alpha)
      | Notch \<Rightarrow>
          (1, -2 * cosw0, 1, 1 + alpha, -2 * cosw0, 1 - alpha)
      | Peaking \<Rightarrow>
          (1 + alpha * A, -2 * cosw0, 1 - alpha * A,
           1 + alpha / A, -2 * cosw0, 1 - alpha / A)
      | LowShelf \<Rightarrow>
          (let rootA = sqrt A in
            (A * ((A + 1) - (A - 1) * cosw0 + 2 * rootA * alpha),
             2 * A * ((A - 1) - (A + 1) * cosw0),
             A * ((A + 1) - (A - 1) * cosw0 - 2 * rootA * alpha),
             (A + 1) + (A - 1) * cosw0 + 2 * rootA * alpha,
             -2 * ((A - 1) + (A + 1) * cosw0),
             (A + 1) + (A - 1) * cosw0 - 2 * rootA * alpha))
      | HighShelf \<Rightarrow>
          (let rootA = sqrt A in
            (A * ((A + 1) + (A - 1) * cosw0 + 2 * rootA * alpha),
             -2 * A * ((A - 1) + (A + 1) * cosw0),
             A * ((A + 1) + (A - 1) * cosw0 - 2 * rootA * alpha),
             (A + 1) - (A - 1) * cosw0 + 2 * rootA * alpha,
             2 * ((A - 1) - (A + 1) * cosw0),
             (A + 1) - (A - 1) * cosw0 - 2 * rootA * alpha)))"

text \<open>
  The second half of \<open>getBiquadMagnitude\<close>: normalisation by \<open>a0\<close> and evaluation of
  the transfer function at \<open>z = e^(jw)\<close>.
\<close>

definition evalMagnitude ::
  "real \<Rightarrow> real \<times> real \<times> real \<times> real \<times> real \<times> real \<Rightarrow> real option" where
  "evalMagnitude freq cs =
     (case cs of (b0, b1, b2, a0, a1, a2) \<Rightarrow>
        if a0 = 0 then None
        else
          let b0n = b0 / a0;
              b1n = b1 / a0;
              b2n = b2 / a0;
              a1n = a1 / a0;
              a2n = a2 / a0;
              w = (2 * pi * freq) / Fs;
              cosw = cos w;
              sinw = sin w;
              cos2w = cos (2 * w);
              sin2w = sin (2 * w);
              numReal = b0n + b1n * cosw + b2n * cos2w;
              numImag = - b1n * sinw - b2n * sin2w;
              denReal = 1 + a1n * cosw + a2n * cos2w;
              denImag = - a1n * sinw - a2n * sin2w
          in if denReal * denReal + denImag * denImag = 0 then None
             else
               let magSq = (numReal * numReal + numImag * numImag)
                             / (denReal * denReal + denImag * denImag)
               in Some (10 * log 10 (max magSq (1 / 10 ^ 20))))"

definition getBiquadMagnitude ::
  "real \<Rightarrow> FilterType \<Rightarrow> real \<Rightarrow> real \<Rightarrow> real \<Rightarrow> real option" where
  "getBiquadMagnitude freq type f0 Q gainDb =
     (let w0 = (2 * pi * f0) / Fs;
          cosw0 = cos w0;
          sinw0 = sin w0
      in if 2 * Q = 0 then None
         else
           let alpha = sinw0 / (2 * Q);
               A = 10 powr (gainDb / 40)
           in evalMagnitude freq (biquadCoefficients type cosw0 alpha A))"

text \<open>
  \<open>getMagResponse\<close>: a disabled band answers 0; with \<open>includeDynamic\<close> and the band's
  dynamics enabled, a Peaking or shelving band is evaluated at \<open>gain + range\<close>.
\<close>

definition getMagResponse :: "real \<Rightarrow> EqBand \<Rightarrow> bool \<Rightarrow> real option" where
  "getMagResponse freq band includeDynamic =
     (if \<not> enabled band then Some 0
      else
        let g = (if includeDynamic \<and> dyn_enabled (dynamic band)
                    \<and> (band_type band = Peaking \<or> band_type band = LowShelf
                         \<or> band_type band = HighShelf)
                 then gain band + range (dynamic band)
                 else gain band)
        in getBiquadMagnitude freq (band_type band) (frequency band) (q band) g)"

text \<open>
  One point of the composite curve in the drawing loop: \<open>totalDb\<close> starts at 0, every
  band adds its \<open>getMagResponse\<close>, then the sum is clipped to \<open>[-60, 30]\<close>. A NaN
  summand makes the sum NaN (\<open>None\<close>).
\<close>

definition addDb :: "real option \<Rightarrow> real option \<Rightarrow> real option" where
  "addDb x y = (case x of None \<Rightarrow> None
                | Some a \<Rightarrow> (case y of None \<Rightarrow> None | Some b \<Rightarrow> Some (a + b)))"

definition sumDb :: "real \<Rightarrow> EqBand list \<Rightarrow> bool \<Rightarrow> real option" where
  "sumDb freq bands includeDynamic =
     fold (\<lambda>band totalDb. addDb totalDb (getMagResponse freq band includeDynamic))
       bands (Some 0)"

definition compositeDb :: "real \<Rightarrow> EqBand list \<Rightarrow> bool \<Rightarrow> real option" where
  "compositeDb freq bands includeDynamic =
     map_option (\<lambda>totalDb. max (-60) (min 30 totalDb)) (sumDb freq bands includeDynamic)"


text \<open>
  The squared modulus of \<open>x * e^(jw) + y + z * e^(-jw)\<close>; the proofs bring numerator
  and denominator of the transfer function into this form.
\<close>

definition respSq :: "real \<Rightarrow> real \<Rightarrow> real \<Rightarrow> real \<Rightarrow> real" where
  "respSq x y z w = ((x + z) * cos w + y) * ((x + z) * cos w + y)
                      + ((x - z) * sin w) * ((x - z) * sin w)"

text \<open>
  For the clamping invariant of the specification: the clamp idiom
  \<open>Math.max(lo, Math.min(hi, x))\<close> and a band with its three parameters clamped into
  \<open>[MIN_FREQ, MAX_FREQ]\<close>, \<open>[MIN_DB, MAX_DB]\<close> and \<open>[MIN_Q, MAX_Q]\<close>. These two follow
  the specification's words, to be compared with what the code hands on.
\<close>

definition spec_clamp :: "real \<Rightarrow> real \<Rightarrow> real \<Rightarrow> real" where
  "spec_clamp lo hi x = max lo (min hi x)"

definition spec_clampedBand :: "EqBand \<Rightarrow> EqBand" where
  "spec_clampedBand band =
     band\<lparr>frequency := spec_clamp MIN_FREQ MAX_FREQ (frequency band),
          gain := spec_clamp MIN_DB MAX_DB (gain band),
          q := spec_clamp MIN_Q MAX_Q (q band)\<rparr>"

definition inRange :: "EqBand \<Rightarrow> bool" where
  "inRange band \<longleftrightarrow>
     MIN_FREQ \<le> frequency band \<and> frequency band \<le> MAX_FREQ \<and>
     MIN_DB \<le> gain band \<and> gain band \<le> MAX_DB \<and>
     MIN_Q \<le> q band \<and> q band \<le> MAX_Q"

section \<open>WAVE encoding (AudioEngine.bufferToWav)\<close>

text \<open>
  An \<open>AudioBuffer\<close>: \<open>bufLength\<close> is its \<open>length\<close> in sample-frames,
  \<open>channelData ! i\<close> is \<open>getChannelData(i)\<close>. The sample rate is a natural number.
\<close>

record AudioBuffer =
  sampleRate :: nat
  bufLength :: nat
  channelData :: "real list list"

definition numberOfChannels :: "AudioBuffer \<Rightarrow> nat" where
  "numberOfChannels buffer = length (channelData buffer)"

definition duration :: "AudioBuffer \<Rightarrow> real" where
  "duration buffer = real (bufLength buffer) / real (sampleRate buffer)"

text \<open>
  The \<open>DataView\<close> is a list of bytes (naturals below 256). A write outside the view
  throws a \<open>RangeError\<close> in the source: \<open>None\<close>.
\<close>

fun le_bytes :: "nat \<Rightarrow> nat \<Rightarrow> nat list" where
  "le_bytes 0 v = []"
| "le_bytes (Suc n) v = (v mod 256) # le_bytes n (v div 256)"

definition writeBytes :: "nat \<Rightarrow> nat list \<Rightarrow> nat list \<Rightarrow> nat list option" where
  "writeBytes p bs view =
     (if p + length bs \<le> length view
      then Some (take p view @ bs @ drop (p + length bs) view)
      else None)"

text \<open>
  \<open>view.setUint16(pos, data, true); pos += 2\<close> and the 32-bit sibling: the closures of
  \<open>bufferToWav\<close> over \<open>view\<close> and \<open>pos\<close>. The number is reduced modulo \<open>2^16\<close>
  (\<open>2^32\<close>) as \<open>DataView\<close> does.
\<close>

definition setUint16 :: "int \<Rightarrow> nat list \<times> nat \<Rightarrow> (nat list \<times> nat) option" where
  "setUint16 data st =
     (case st of (view, pos) \<Rightarrow>
        map_option (\<lambda>view'. (view', pos + 2))
          (writeBytes pos (le_bytes 2 (nat (data mod 65536))) view))"

definition setUint32 :: "int \<Rightarrow> nat list \<times> nat \<Rightarrow> (nat list \<times> nat) option" where
  "setUint32 data st =
     (case st of (view, pos) \<Rightarrow>
        map_option (\<lambda>view'. (view', pos + 4))
          (writeBytes pos (le_bytes 4 (nat (data mod 4294967296))) view))"

text \<open>\<open>view.setInt16(p, sample, true)\<close>: the low 16 bits, two's complement.\<close>

definition setInt16 :: "nat \<Rightarrow> int \<Rightarrow> nat list \<Rightarrow> nat list option" where
  "setInt16 p sample view = writeBytes p (le_bytes 2 (nat (sample mod 65536))) view"

text \<open>
  \<open>x | 0\<close>: truncation towards zero, then reduction to a signed 32-bit integer.
\<close>

definition toInt32 :: "real \<Rightarrow> int" where
  "toInt32 r =
     (let t = (if 0 \<le> r then \<lfloor>r\<rfloor> else \<lceil>r\<rceil>);
          m = t mod 4294967296
      in if 2147483648 \<le> m then m - 4294967296 else m)"

text \<open>
  \<open>channels[i][pos]\<close>: a read past the end of a \<open>Float32Array\<close> is \<open>undefined\<close>
  (\<open>None\<close>), which the clamp turns into NaN and \<open>| 0\<close> into 0.
\<close>

definition sampleAt :: "real list \<Rightarrow> nat \<Rightarrow> real option" where
  "sampleAt ch pos = (if pos < length ch then Some (ch ! pos) else None)"

fun quantize :: "real option \<Rightarrow> int" where
  "quantize None = 0"
| "quantize (Some x) =
     (let sample = max (-1) (min 1 x)
      in toInt32 (if 1 / 2 + sample < 0 then sample * 32768 else sample * 32767))"

text \<open>The header writes of \<open>bufferToWav\<close>, in the order of the source.\<close>

definition writeHeader ::
  "AudioBuffer \<Rightarrow> nat \<Rightarrow> nat list \<times> nat \<Rightarrow> (nat list \<times> nat) option" where
  "writeHeader buffer len st0 =
     (let numOfChan = numberOfChannels buffer in
      do {
        st \<leftarrow> setUint32 0x46464952 st0;
        st \<leftarrow> setUint32 (int len - 8) st;
        st \<leftarrow> setUint32 0x45564157 st;
        st \<leftarrow> setUint32 0x20746d66 st;
        st \<leftarrow> setUint32 16 st;
        st \<leftarrow> setUint16 1 st;
        st \<leftarrow> setUint16 (int numOfChan) st;
        st \<leftarrow> setUint32 (int (sampleRate buffer)) st;
        st \<leftarrow> setUint32 (int (sampleRate buffer) * 2 * int numOfChan) st;
        st \<leftarrow> setUint16 (int numOfChan * 2) st;
        st \<leftarrow> setUint16 16 st;
        st \<leftarrow> setUint32 0x61746164 st;
        setUint32 (int len - int (snd st) - 4) st
      })"

text \<open>
  The inner \<open>for\<close> loop over the channels of one frame \<open>pos\<close>, and the outer
  \<open>while (pos < buffer.length)\<close> loop. The loop state is the view and \<open>offset\<close>;
  \<open>pos\<close> is the variable the header writes have advanced.
\<close>

function interleave ::
  "AudioBuffer \<Rightarrow> nat \<Rightarrow> nat \<Rightarrow> nat list \<times> nat \<Rightarrow> (nat list \<times> nat) option" where
  "interleave buffer pos i (view, offset) =
     (if i < numberOfChannels buffer
      then (case setInt16 (44 + offset) (quantize (sampleAt (channelData buffer ! i) pos)) view of
              None \<Rightarrow> None
            | Some view' \<Rightarrow> interleave buffer pos (i + 1) (view', offset + 2))
      else Some (view, offset))"
  by pat_completeness auto
termination
  by (relation "measure (\<lambda>(buffer, pos, i, st). numberOfChannels buffer - i)") auto

function writeData ::
  "AudioBuffer \<Rightarrow> nat \<Rightarrow> nat list \<times> nat \<Rightarrow> (nat list \<times> nat) option" where
  "writeData buffer pos st =
     (if pos < bufLength buffer
      then (case interleave buffer pos 0 st of
              None \<Rightarrow> None
            | Some st' \<Rightarrow> writeData buffer (pos + 1) st')
      else Some st)"
  by pat_completeness auto
termination
  by (relation "measure (\<lambda>(buffer, pos, st). bufLength buffer - pos)") auto

definition bufferToWav :: "AudioBuffer \<Rightarrow> nat list option" where
  "bufferToWav buffer =
     (let numOfChan = numberOfChannels buffer;
          len = bufLength buffer * numOfChan * 2 + 44;
          bufferArr = replicate len 0
      in do {
        (view, pos) \<leftarrow> writeHeader buffer len (bufferArr, 0);
        (view', offset) \<leftarrow> writeData buffer pos (view, 0);
        Some view'
      })"

text \<open>
  What a reader of the file sees: an unsigned little-endian field of \<open>n\<close> bytes at
  byte position \<open>p\<close>.
\<close>

fun le_val :: "nat list \<Rightarrow> nat" where
  "le_val [] = 0"
| "le_val (b # bs) = b + 256 * le_val bs"

definition field_at :: "nat \<Rightarrow> nat \<Rightarrow> nat list \<Rightarrow> nat" where
  "field_at n p bytes = le_val (take n (drop p bytes))"


section \<open>The audio graph (AudioEngine)\<close>

text \<open>
  The nodes of a processing graph. \<open>Source\<close> is the node held in \<open>sourceNode\<close> (or the
  buffer source of an offline context), \<open>Biquad n\<close> the \<open>n\<close>-th node its context has
  made with \<open>createBiquadFilter\<close>. A graph is the set of its connections:
  \<open>a.connect(b)\<close> inserts \<open>(a, b)\<close>, \<open>a.disconnect()\<close> removes every connection that
  leaves \<open>a\<close>.
\<close>

datatype AudioNode = Source | AnalyserInput | AnalyserOutput | MasterGain | Destination
  | Biquad nat

definition disconnect :: "AudioNode \<Rightarrow> (AudioNode \<times> AudioNode) set \<Rightarrow> (AudioNode \<times> AudioNode) set" where
  "disconnect a conns = {c \<in> conns. fst c \<noteq> a}"

text \<open>
  A \<open>BiquadFilterNode\<close> holds the four values the code assigns to it. (What the platform
  does with a value outside a parameter's nominal range is not code of this repository.)
\<close>

record BiquadFilterNode =
  bq_type :: FilterType
  bq_frequency :: real
  bq_Q :: real
  bq_gain :: real

datatype SourceType = SrcNoise | SrcOscillator | SrcMic | SrcFile

text \<open>
  \<open>SourceType\<close> is the union \<open>'noise' | 'oscillator' | 'mic' | 'file'\<close>; \<open>BufferRef\<close> names
  the buffer a buffer source plays.
\<close>

datatype BufferRef = NoiseBuffer | FileBuffer

text \<open>
  The three kinds of source node: a buffer source with its buffer, its \<open>loop\<close> flag and
  the offset it was started at; the oscillator with its waveform and frequency; the
  microphone stream source.
\<close>

datatype SourceNode =
    AudioBufferSourceNode BufferRef bool real
  | OscillatorNode string real
  | MediaStreamAudioSourceNode

datatype EngineError = NoAudioFileLoaded | NonFiniteOffset | ViewRangeError

text \<open>
  The state of the engine. \<open>has_context\<close> says that \<open>initContext\<close> has run (the context,
  the master gain and both analysers are created together); \<open>noiseBuffer\<close> that the noise
  buffer exists; \<open>biquads\<close> are the filter nodes the live context has created so far;
  \<open>filters\<close> is the \<open>Map\<close> from band ids to filter nodes.
\<close>

record AudioEngine =
  has_context :: bool
  noiseBuffer :: bool
  sourceNode :: "SourceNode option"
  biquads :: "BiquadFilterNode list"
  connections :: "(AudioNode \<times> AudioNode) set"
  filters :: "string \<rightharpoonup> nat"
  fileBuffer :: "AudioBuffer option"
  playbackStartTime :: real
  playbackOffset :: real

definition newEngine :: AudioEngine where
  "newEngine =
     \<lparr>has_context = False, noiseBuffer = False, sourceNode = None, biquads = [],
      connections = {}, filters = Map.empty, fileBuffer = None,
      playbackStartTime = 0, playbackOffset = 0\<rparr>"

definition initContext :: "AudioEngine \<Rightarrow> AudioEngine" where
  "initContext s =
     (if \<not> has_context s
      then s\<lparr>has_context := True, noiseBuffer := True,
             connections :=
               insert (AnalyserOutput, MasterGain)
                 (insert (MasterGain, Destination) (connections s))\<rparr>
      else s)"

text \<open>
  \<open>loadAudioFile\<close>: \<open>decoded\<close> is what \<open>decodeAudioData\<close> answers (a rejection leaves the
  engine as \<open>initContext\<close> left it).
\<close>

definition loadAudioFile :: "AudioBuffer option \<Rightarrow> AudioEngine \<Rightarrow> AudioEngine" where
  "loadAudioFile decoded s =
     (let s0 = initContext s in
      if \<not> has_context s0 then s0
      else (case decoded of
              None \<Rightarrow> s0
            | Some buffer \<Rightarrow> s0\<lparr>fileBuffer := Some buffer, playbackOffset := 0\<rparr>))"

text \<open>
  \<open>stop\<close>, with the reading \<open>t\<close> of \<open>context.currentTime\<close>. Every kind of source node
  is dropped and disconnected, and the offset is advanced whenever there was a source.
\<close>

definition stop :: "real \<Rightarrow> AudioEngine \<Rightarrow> AudioEngine" where
  "stop t s =
     (case sourceNode s of
        None \<Rightarrow> s
      | Some node \<Rightarrow>
          let s1 = s\<lparr>connections := disconnect Source (connections s), sourceNode := None\<rparr>
          in if has_context s1
             then s1\<lparr>playbackOffset := playbackOffset s1 + (t - playbackStartTime s1)\<rparr>
             else s1)"

text \<open>
  The remainder operator \<open>x % d\<close> of JavaScript on numbers: the sign follows the
  dividend; the result is NaN (\<open>None\<close>) for \<open>d = 0\<close>.
\<close>

definition jsRem :: "real \<Rightarrow> real \<Rightarrow> real option" where
  "jsRem x d =
     (if d = 0 then None
      else Some (x - d * of_int (if 0 \<le> x / d then \<lfloor>x / d\<rfloor> else \<lceil>x / d\<rceil>)))"

text \<open>
  \<open>start(sourceType)\<close>. \<open>micGranted\<close> says whether \<open>getUserMedia\<close> resolves, \<open>t\<close> is
  the reading of \<open>context.currentTime\<close>. The result is the error the returned promise
  rejects with, if any, and the engine as the call leaves it.
\<close>

definition start ::
  "SourceType \<Rightarrow> bool \<Rightarrow> real \<Rightarrow> AudioEngine \<Rightarrow> EngineError option \<times> AudioEngine" where
  "start sourceType micGranted t s =
     (let s0 = initContext s in
      if \<not> has_context s0 then (None, s0)
      else
        let s1 = stop t s0;
            wire = (\<lambda>s'. case sourceNode s' of
                      None \<Rightarrow> s'
                    | Some node \<Rightarrow>
                        s'\<lparr>connections :=
                             insert (AnalyserInput, AnalyserOutput)
                               (insert (Source, AnalyserInput) (connections s'))\<rparr>)
        in if sourceType = SrcMic then
             (if micGranted
              then (None, wire (s1\<lparr>sourceNode := Some MediaStreamAudioSourceNode\<rparr>))
              else (None, s1))
           else if sourceType = SrcNoise \<and> noiseBuffer s1 then
             (None, wire (s1\<lparr>sourceNode := Some (AudioBufferSourceNode NoiseBuffer True 0)\<rparr>))
           else if sourceType = SrcFile \<and> fileBuffer s1 \<noteq> None then
             (case jsRem (playbackOffset s1) (duration (the (fileBuffer s1))) of
                None \<Rightarrow>
                  (Some NonFiniteOffset,
                   s1\<lparr>sourceNode := Some (AudioBufferSourceNode FileBuffer True 0)\<rparr>)
              | Some off \<Rightarrow>
                  (None,
                   wire (s1\<lparr>sourceNode := Some (AudioBufferSourceNode FileBuffer True off),
                             playbackStartTime := t\<rparr>)))
           else
             (None, wire (s1\<lparr>sourceNode := Some (OscillatorNode ''sawtooth'' 100)\<rparr>)))"

text \<open>
  The body of the \<open>forEach\<close> of \<open>updateFilters\<close>, on the pair of \<open>previousNode\<close> and the
  engine, and \<open>updateFilters\<close> itself.
\<close>

definition addLiveFilter :: "EqBand \<Rightarrow> AudioNode \<times> AudioEngine \<Rightarrow> AudioNode \<times> AudioEngine" where
  "addLiveFilter band st =
     (case st of (previousNode, s) \<Rightarrow>
        if \<not> has_context s then (previousNode, s)
        else
          let n = length (biquads s);
              flt = \<lparr>bq_type = band_type band, bq_frequency = frequency band,
                     bq_Q = q band, bq_gain = gain band\<rparr>
          in (Biquad n,
              s\<lparr>biquads := biquads s @ [flt],
                connections := insert (previousNode, Biquad n) (connections s),
                filters := (filters s)(band_id band \<mapsto> n)\<rparr>))"

definition updateFilters :: "EqBand list \<Rightarrow> AudioEngine \<Rightarrow> AudioEngine" where
  "updateFilters bands s =
     (let s0 = initContext s in
      if \<not> has_context s0 then s0
      else
        let s1 = s0\<lparr>connections := disconnect AnalyserInput (connections s0),
                    filters := Map.empty\<rparr>;
            (previousNode, s2) = fold addLiveFilter (filter enabled bands) (AnalyserInput, s1)
        in s2\<lparr>connections := insert (previousNode, AnalyserOutput) (connections s2)\<rparr>)"

text \<open>
  \<open>exportAudio\<close>. The \<open>OfflineAudioContext\<close> as the code has set it up when it calls
  \<open>startRendering\<close>: the three constructor arguments, the buffer of its source, its
  filter nodes and its connections.
\<close>

record OfflineAudioContext =
  oc_numberOfChannels :: nat
  oc_length :: nat
  oc_sampleRate :: nat
  oc_sourceBuffer :: AudioBuffer
  oc_biquads :: "BiquadFilterNode list"
  oc_connections :: "(AudioNode \<times> AudioNode) set"

definition addOfflineFilter ::
  "EqBand \<Rightarrow> AudioNode \<times> OfflineAudioContext \<Rightarrow> AudioNode \<times> OfflineAudioContext" where
  "addOfflineFilter band st =
     (case st of (previousNode, c) \<Rightarrow>
        let n = length (oc_biquads c);
            flt = \<lparr>bq_type = band_type band, bq_frequency = frequency band,
                   bq_Q = q band, bq_gain = gain band\<rparr>
        in (Biquad n,
            c\<lparr>oc_biquads := oc_biquads c @ [flt],
              oc_connections := insert (previousNode, Biquad n) (oc_connections c)\<rparr>))"

definition offlineGraph :: "EqBand list \<Rightarrow> AudioBuffer \<Rightarrow> OfflineAudioContext" where
  "offlineGraph bands fb =
     (let offlineCtx = \<lparr>oc_numberOfChannels = numberOfChannels fb, oc_length = bufLength fb,
                         oc_sampleRate = sampleRate fb, oc_sourceBuffer = fb,
                         oc_biquads = [], oc_connections = {}\<rparr>;
          (previousNode, c) = fold addOfflineFilter (filter enabled bands) (Source, offlineCtx)
      in c\<lparr>oc_connections := insert (previousNode, Destination) (oc_connections c)\<rparr>)"

text \<open>
  \<open>startRendering\<close> is the platform's: the parameter \<open>render\<close>.
\<close>

definition exportAudio ::
  "(OfflineAudioContext \<Rightarrow> AudioBuffer) \<Rightarrow> EqBand list \<Rightarrow> AudioEngine
     \<Rightarrow> EngineError + nat list" where
  "exportAudio render bands s =
     (case fileBuffer s of
        None \<Rightarrow> Inl NoAudioFileLoaded
      | Some fb \<Rightarrow>
          let renderedBuffer = render (offlineGraph bands fb)
          in (case bufferToWav renderedBuffer of
                None \<Rightarrow> Inl ViewRangeError
              | Some bytes \<Rightarrow> Inr bytes))"

text \<open>
  The connections of a chain that leads from \<open>a\<close> through the nodes \<open>ns\<close> to \<open>b\<close>.
\<close>

definition chainEdges :: "AudioNode \<Rightarrow> AudioNode list \<Rightarrow> AudioNode \<Rightarrow> (AudioNode \<times> AudioNode) set" where
  "chainEdges a ns b = set (zip (a # ns) (ns @ [b]))"

section \<open>Auxiliary definitions for the proofs\<close>

text \<open>
  The bytes \<open>bufferToWav\<close> is shown to produce: the 44 header bytes, the two bytes of
  one sample, the bytes of one frame from channel \<open>i\<close> on, and the bytes of all frames
  from frame \<open>pos\<close> on.
\<close>

definition headerBytes :: "AudioBuffer \<Rightarrow> nat \<Rightarrow> nat list" where
  "headerBytes buffer len =
     le_bytes 4 0x46464952 @
     le_bytes 4 (nat ((int len - 8) mod 4294967296)) @
     le_bytes 4 0x45564157 @
     le_bytes 4 0x20746d66 @
     le_bytes 4 16 @
     le_bytes 2 1 @
     le_bytes 2 (nat (int (numberOfChannels buffer) mod 65536)) @
     le_bytes 4 (nat (int (sampleRate buffer) mod 4294967296)) @
     le_bytes 4 (nat ((int (sampleRate buffer) * 2 * int (numberOfChannels buffer)) mod 4294967296)) @
     le_bytes 2 (nat ((int (numberOfChannels buffer) * 2) mod 65536)) @
     le_bytes 2 16 @
     le_bytes 4 0x61746164 @
     le_bytes 4 (nat ((int len - 44) mod 4294967296))"

definition sampleBytes :: "AudioBuffer \<Rightarrow> nat \<Rightarrow> nat \<Rightarrow> nat list" where
  "sampleBytes buffer pos i =
     le_bytes 2 (nat (quantize (sampleAt (channelData buffer ! i) pos) mod 65536))"

definition frameBytes :: "AudioBuffer \<Rightarrow> nat \<Rightarrow> nat \<Rightarrow> nat list" where
  "frameBytes buffer pos i = concat (map (sampleBytes buffer pos) [i..<numberOfChannels buffer])"

definition dataBytes :: "AudioBuffer \<Rightarrow> nat \<Rightarrow> nat list" where
  "dataBytes buffer pos = concat (map (\<lambda>p. frameBytes buffer p 0) [pos..<bufLength buffer])"

text \<open>
  The recursive equations of the two loops are used one step at a time.
\<close>

declare interleave.simps [simp del]

declare writeData.simps [simp del]

text \<open>Example inputs.\<close>

definition previewBand :: EqBand where
  "previewBand =
     \<lparr>band_id = ''band-1'', enabled = True, frequency = 12000, gain = 0, q = 1,
      band_type = Peaking, dynamic = DEFAULT_DYNAMIC_SETTINGS\<lparr>dyn_enabled := True\<rparr>,
      color = ''#ef4444''\<rparr>"

definition loudBand :: "string \<Rightarrow> EqBand" where
  "loudBand i = (createDefaultBand i 12000 0)\<lparr>gain := 30\<rparr>"

definition silentStereo :: AudioBuffer where
  "silentStereo = \<lparr>sampleRate = 48000, bufLength = 2, channelData = [[0, 0], [0, 0]]\<rparr>"

definition oneFrameBuffer :: AudioBuffer where
  "oneFrameBuffer = \<lparr>sampleRate = 48000, bufLength = 1, channelData = [[1]]\<rparr>"

definition shortBuffer :: AudioBuffer where
  "shortBuffer = \<lparr>sampleRate = 48000, bufLength = 45, channelData = [replicate 44 1 @ [-1]]\<rparr>"

definition farBand :: EqBand where
  "farBand = (createDefaultBand ''band-1'' 999999 0)\<lparr>gain := 6\<rparr>"

definition noisePlaying :: AudioEngine where
  "noisePlaying = snd (start SrcNoise True 0 newEngine)"

definition silentMono :: AudioBuffer where
  "silentMono = \<lparr>sampleRate = 48000, bufLength = 45, channelData = [replicate 45 0]\<rparr>"

definition markingRenderer :: "OfflineAudioContext \<Rightarrow> AudioBuffer" where
  "markingRenderer c =
     \<lparr>sampleRate = oc_sampleRate c, bufLength = oc_length c,
      channelData = replicate (oc_numberOfChannels c)
                      (replicate (oc_length c) (- real (length (oc_biquads c)) / 2))\<rparr>"

definition monoLoaded :: AudioEngine where
  "monoLoaded = loadAudioFile (Some silentMono) newEngine"

definition threeBands :: "EqBand list" where
  "threeBands = [loudBand ''band-1'', (loudBand ''band-2'')\<lparr>enabled := False\<rparr>,
                 (createDefaultBand ''band-3'' 100 0)\<lparr>band_type := HighPass\<rparr>]"

definition twoSecondBuffer :: AudioBuffer where
  "twoSecondBuffer =
     \<lparr>sampleRate = 48000, bufLength = 96000, channelData = [replicate 96000 0]\<rparr>"

definition twoSecondLoaded :: AudioEngine where
  "twoSecondLoaded = loadAudioFile (Some twoSecondBuffer) newEngine"

section \<open>The magnitude response: the transfer function in closed form\<close>


lemma sq_modulus_shift:
  fixes x y z w :: real
  shows "(x + y * cos w + z * cos (2 * w)) * (x + y * cos w + z * cos (2 * w))
           + (- y * sin w - z * sin (2 * w)) * (- y * sin w - z * sin (2 * w))
         = ((x + z) * cos w + y) * ((x + z) * cos w + y)
           + ((x - z) * sin w) * ((x - z) * sin w)"
proof -
  define c where "c = cos w"
  define s where "s = sin w"
  have cs: "s * s = 1 - c * c"
    using sin_cos_squared_add [of w] by (simp add: c_def s_def power2_eq_square)
  have c2: "cos (2 * w) = c * c - s * s"
    by (simp add: cos_double c_def s_def power2_eq_square)
  have s2: "sin (2 * w) = 2 * s * c"
    by (simp add: sin_double c_def s_def)
  have "(x + y * c + z * (c * c - s * s)) * (x + y * c + z * (c * c - s * s))
          + (- y * s - z * (2 * s * c)) * (- y * s - z * (2 * s * c))
        = (x + y * c + z * (c * c - s * s)) * (x + y * c + z * (c * c - s * s))
          + (s * s) * ((y + 2 * z * c) * (y + 2 * z * c))"
    by (simp add: algebra_simps)
  also have "\<dots> = ((x + z) * c + y) * ((x + z) * c + y) + (s * s) * ((x - z) * (x - z))"
    unfolding cs by (simp add: algebra_simps)
  also have "\<dots> = ((x + z) * c + y) * ((x + z) * c + y) + ((x - z) * s) * ((x - z) * s)"
    by (simp add: algebra_simps)
  finally show ?thesis
    unfolding c2 s2 c_def [symmetric] s_def [symmetric] by (simp add: c2 s2)
qed

lemma respSq_scale:
  assumes "a \<noteq> 0"
  shows "respSq (x / a) (y / a) (z / a) w = respSq x y z w / (a * a)"
  using assms unfolding respSq_def by (simp add: field_simps)

lemma respSq_one_scale:
  assumes "a \<noteq> 0"
  shows "respSq 1 (y / a) (z / a) w = respSq a y z w / (a * a)"
  using assms respSq_scale [OF assms, of a y z w] by simp

lemma evalMagnitude_eq:
  "evalMagnitude freq (b0, b1, b2, a0, a1, a2) =
     (if a0 = 0 \<or> respSq a0 a1 a2 (2 * pi * freq / Fs) = 0 then None
      else Some (10 * log 10 (max (respSq b0 b1 b2 (2 * pi * freq / Fs)
                                     / respSq a0 a1 a2 (2 * pi * freq / Fs)) (1 / 10 ^ 20))))"
proof (cases "a0 = 0")
  case True
  then show ?thesis by (simp add: evalMagnitude_def)
next
  case False
  define w where "w = 2 * pi * freq / Fs"
  have step: "evalMagnitude freq (b0, b1, b2, a0, a1, a2) =
      (if respSq 1 (a1 / a0) (a2 / a0) w = 0 then None
       else Some (10 * log 10 (max (respSq (b0 / a0) (b1 / a0) (b2 / a0) w
                                      / respSq 1 (a1 / a0) (a2 / a0) w) (1 / 10 ^ 20))))"
    unfolding evalMagnitude_def Let_def prod.case w_def [symmetric] sq_modulus_shift
      respSq_def [symmetric]
    using False by (simp only: if_False)
  have quot: "respSq b0 b1 b2 w / (a0 * a0) / (respSq a0 a1 a2 w / (a0 * a0))
                = respSq b0 b1 b2 w / respSq a0 a1 a2 w"
    using False by simp
  have zero: "respSq a0 a1 a2 w / (a0 * a0) = 0 \<longleftrightarrow> respSq a0 a1 a2 w = 0"
    using False by simp
  show ?thesis
    unfolding step respSq_one_scale [OF False] respSq_scale [OF False] quot zero
      w_def [symmetric]
    using False by simp
qed


lemma sin_w0_pos:
  assumes "0 < f" "f < 24000"
  shows "0 < sin (2 * pi * f / Fs)"
proof -
  have "0 < 2 * pi * f / Fs"
    using assms by (simp add: Fs_def)
  moreover have "2 * pi * f / Fs < pi"
    using assms pi_gt_zero by (simp add: Fs_def field_simps)
  ultimately show ?thesis by (rule sin_gt_zero)
qed

lemma log10_powr4:
  "log 10 ((10 powr (g / 40)) ^ 4) = g / 10"
proof -
  have "(10 powr (g / 40)) ^ 4 = (10::real) powr (g / 10)"
    by (simp add: powr_power)
  then show ?thesis by simp
qed

lemma peaking_center:
  assumes f: "0 < f" "f < 24000" and Q: "0 < Q" and g: "-200 \<le> g"
  shows "getBiquadMagnitude f Peaking f Q g = Some g"
proof -
  define w where "w = 2 * pi * f / Fs"
  define A where "A = (10::real) powr (g / 40)"
  define al where "al = sin w / (2 * Q)"
  have s: "0 < sin w" unfolding w_def using f by (rule sin_w0_pos)
  have A: "0 < A" by (simp add: A_def)
  have al: "0 < al" using s Q by (simp add: al_def)
  have a0: "1 + al / A \<noteq> 0"
    using al A by (smt (verit) divide_pos_pos)
  have den: "respSq (1 + al / A) (-2 * cos w) (1 - al / A) w = (2 * (al / A) * sin w) ^ 2"
    by (simp add: respSq_def power2_eq_square algebra_simps)
  have num: "respSq (1 + al * A) (-2 * cos w) (1 - al * A) w = (2 * (al * A) * sin w) ^ 2"
    by (simp add: respSq_def power2_eq_square algebra_simps)
  have den0: "(2 * (al / A) * sin w) ^ 2 \<noteq> 0"
    using al A s by simp
  have ratio: "(2 * (al * A) * sin w) ^ 2 / (2 * (al / A) * sin w) ^ 2 = A ^ 4"
    using al A s by (simp add: field_simps power2_eq_square power4_eq_xxxx)
  have big: "1 / 10 ^ 20 \<le> A ^ 4"
  proof -
    have "A ^ 4 = 10 powr (g / 10)" by (simp add: A_def powr_power)
    moreover have "(10::real) powr (-20) \<le> 10 powr (g / 10)"
      using g by (intro powr_mono) simp_all
    moreover have "(10::real) powr (-20) = 1 / 10 ^ 20"
      by (simp add: powr_minus_divide)
    ultimately show ?thesis by simp
  qed
  have "getBiquadMagnitude f Peaking f Q g
          = evalMagnitude f (1 + al * A, -2 * cos w, 1 - al * A,
                             1 + al / A, -2 * cos w, 1 - al / A)"
    using Q by (simp add: getBiquadMagnitude_def biquadCoefficients_def Let_def
        w_def al_def A_def)
  also have "\<dots> = Some (10 * log 10 (max (A ^ 4) (1 / 10 ^ 20)))"
    unfolding evalMagnitude_eq w_def [symmetric] den num ratio
    using a0 den0 by simp
  also have "max (A ^ 4) (1 / 10 ^ 20) = A ^ 4"
    using big by (simp add: max_def)
  also have "10 * log 10 (A ^ 4) = g"
    unfolding A_def log10_powr4 by simp
  finally show ?thesis .
qed


lemma sin_zero_cos_cases:
  fixes w :: real
  assumes "sin w = 0"
  shows "cos w = 1 \<or> cos w = -1"
proof -
  have "(cos w)\<^sup>2 = 1"
    using sin_cos_squared_add [of w] assms by simp
  then show ?thesis by (simp add: power2_eq_1_iff)
qed

lemma cos_w0_strict:
  fixes w0 :: real
  assumes "sin w0 \<noteq> 0"
  shows "cos w0 < 1" "-1 < cos w0"
proof -
  have "(cos w0)\<^sup>2 < 1"
    using sin_cos_squared_add [of w0] assms
    by (smt (verit) zero_less_power2)
  then have "\<bar>cos w0\<bar> < 1"
    by (simp add: abs_square_less_1)
  then show "cos w0 < 1" "-1 < cos w0" by auto
qed

lemma sq_sum_nonzero:
  fixes x y :: real
  assumes "x = 0 \<Longrightarrow> y = 0 \<Longrightarrow> False"
  shows "x * x + y * y \<noteq> 0"
  using assms by (metis mult_eq_0_iff sum_squares_eq_zero_iff)

lemma respSq_two_pole_nonzero:
  assumes al: "al \<noteq> 0" and c0: "c0 < 1" "-1 < c0"
  shows "respSq (1 + al) (-2 * c0) (1 - al) w \<noteq> 0"
  unfolding respSq_def
proof (rule sq_sum_nonzero)
  assume 1: "(1 + al + (1 - al)) * cos w + - 2 * c0 = 0"
    and 2: "(1 + al - (1 - al)) * sin w = 0"
  from 2 al have "sin w = 0" by simp
  then have "cos w = 1 \<or> cos w = -1" by (rule sin_zero_cos_cases)
  moreover from 1 have "cos w = c0" by simp
  ultimately show False using c0 by auto
qed

lemma respSq_lowshelf_nonzero:
  assumes k: "k \<noteq> 0" and A: "0 < A" and c0: "c0 < 1" "-1 < c0"
  shows "respSq ((A + 1) + (A - 1) * c0 + k) (-2 * ((A - 1) + (A + 1) * c0))
           ((A + 1) + (A - 1) * c0 - k) w \<noteq> 0"
  unfolding respSq_def
proof (rule sq_sum_nonzero)
  assume 1: "(A + 1 + (A - 1) * c0 + k + (A + 1 + (A - 1) * c0 - k)) * cos w
               + - 2 * (A - 1 + (A + 1) * c0) = 0"
    and 2: "(A + 1 + (A - 1) * c0 + k - (A + 1 + (A - 1) * c0 - k)) * sin w = 0"
  from 2 k have "sin w = 0" by simp
  then have "cos w = 1 \<or> cos w = -1" by (rule sin_zero_cos_cases)
  then show False
  proof
    assume "cos w = 1"
    with 1 have "c0 = 1" by (simp add: algebra_simps)
    with c0 show False by simp
  next
    assume "cos w = -1"
    with 1 have "A * (1 + c0) = 0" by (simp add: algebra_simps)
    with A c0 show False by simp
  qed
qed

lemma respSq_highshelf_nonzero:
  assumes k: "k \<noteq> 0" and A: "0 < A" and c0: "c0 < 1" "-1 < c0"
  shows "respSq ((A + 1) - (A - 1) * c0 + k) (2 * ((A - 1) - (A + 1) * c0))
           ((A + 1) - (A - 1) * c0 - k) w \<noteq> 0"
  unfolding respSq_def
proof (rule sq_sum_nonzero)
  assume 1: "(A + 1 - (A - 1) * c0 + k + (A + 1 - (A - 1) * c0 - k)) * cos w
               + 2 * (A - 1 - (A + 1) * c0) = 0"
    and 2: "(A + 1 - (A - 1) * c0 + k - (A + 1 - (A - 1) * c0 - k)) * sin w = 0"
  from 2 k have "sin w = 0" by simp
  then have "cos w = 1 \<or> cos w = -1" by (rule sin_zero_cos_cases)
  then show False
  proof
    assume "cos w = 1"
    with 1 have "A * (1 - c0) = 0" by (simp add: algebra_simps)
    with A c0 show False by simp
  next
    assume "cos w = -1"
    with 1 have "c0 = -1" by (simp add: algebra_simps)
    with c0 show False by simp
  qed
qed

lemma shelf_a0_pos:
  fixes A c0 k :: real
  assumes "0 < A" "c0 < 1" "-1 < c0" "0 < k"
  shows "0 < (A + 1) + (A - 1) * c0 + k" "0 < (A + 1) - (A - 1) * c0 + k"
proof -
  have p: "0 < A * (1 + c0)" "0 < A * (1 - c0)" using assms by simp_all
  have "(A + 1) + (A - 1) * c0 + k = A * (1 + c0) + (1 - c0) + k"
    by (simp add: algebra_simps)
  then show "0 < (A + 1) + (A - 1) * c0 + k"
    using p(1) assms by linarith
  have "(A + 1) - (A - 1) * c0 + k = A * (1 - c0) + (1 + c0) + k"
    by (simp add: algebra_simps)
  then show "0 < (A + 1) - (A - 1) * c0 + k"
    using p(2) assms by linarith
qed

lemma getBiquadMagnitude_defined:
  assumes f0: "0 < f0" "f0 < 24000" and Q: "0 < Q"
  shows "\<exists>m. getBiquadMagnitude freq type f0 Q g = Some m"
proof -
  define w where "w = 2 * pi * freq / Fs"
  define c0 where "c0 = cos (2 * pi * f0 / Fs)"
  define al where "al = sin (2 * pi * f0 / Fs) / (2 * Q)"
  define A where "A = (10::real) powr (g / 40)"
  have s0: "0 < sin (2 * pi * f0 / Fs)" using f0 by (rule sin_w0_pos)
  then have c0: "c0 < 1" "-1 < c0"
    unfolding c0_def using cos_w0_strict [of "2 * pi * f0 / Fs"] by simp_all
  have al: "0 < al" using s0 Q by (simp add: al_def)
  have A: "0 < A" by (simp add: A_def)
  have alA: "0 < al / A" using al A by simp
  have rA: "0 < 2 * sqrt A * al" using al A by simp
  have a0P: "1 + al / A \<noteq> 0" using alA by linarith
  have unf: "\<And>t. getBiquadMagnitude freq t f0 Q g
               = evalMagnitude freq (biquadCoefficients t c0 al A)"
    using Q by (simp add: getBiquadMagnitude_def Let_def c0_def al_def A_def)
  show ?thesis
  proof (cases type)
    case LowPass
    show ?thesis
      unfolding unf LowPass biquadCoefficients_def FilterType.case evalMagnitude_eq
        w_def [symmetric]
      using respSq_two_pole_nonzero [of al c0 w] al c0 by simp
  next
    case HighPass
    show ?thesis
      unfolding unf HighPass biquadCoefficients_def FilterType.case evalMagnitude_eq
        w_def [symmetric]
      using respSq_two_pole_nonzero [of al c0 w] al c0 by simp
  next
    case BandPass
    show ?thesis
      unfolding unf BandPass biquadCoefficients_def FilterType.case evalMagnitude_eq
        w_def [symmetric]
      using respSq_two_pole_nonzero [of al c0 w] al c0 by simp
  next
    case Notch
    show ?thesis
      unfolding unf Notch biquadCoefficients_def FilterType.case evalMagnitude_eq
        w_def [symmetric]
      using respSq_two_pole_nonzero [of al c0 w] al c0 by simp
  next
    case Peaking
    show ?thesis
      unfolding unf Peaking biquadCoefficients_def FilterType.case evalMagnitude_eq
        w_def [symmetric]
      using respSq_two_pole_nonzero [of "al / A" c0 w] al A c0 a0P by simp
  next
    case LowShelf
    show ?thesis
      unfolding unf LowShelf biquadCoefficients_def FilterType.case Let_def evalMagnitude_eq
        w_def [symmetric]
      using respSq_lowshelf_nonzero [of "2 * sqrt A * al" A c0 w]
        shelf_a0_pos(1) [of A c0 "2 * sqrt A * al"] rA al A c0 by simp
  next
    case HighShelf
    show ?thesis
      unfolding unf HighShelf biquadCoefficients_def FilterType.case Let_def evalMagnitude_eq
        w_def [symmetric]
      using respSq_highshelf_nonzero [of "2 * sqrt A * al" A c0 w]
        shelf_a0_pos(2) [of A c0 "2 * sqrt A * al"] rA al A c0 by simp
  qed
qed


lemma peaking_respSq:
  "respSq (1 + k) (-2 * c0) (1 - k) w = 4 * (cos w - c0)\<^sup>2 + 4 * k\<^sup>2 * (sin w)\<^sup>2"
  by (simp add: respSq_def power2_eq_square algebra_simps)

lemma peaking_magnitude:
  assumes Q: "Q \<noteq> 0"
    and a0: "1 + sin (2 * pi * f0 / Fs) / (2 * Q) / 10 powr (g / 40) \<noteq> 0"
    and D: "4 * (cos (2 * pi * freq / Fs) - cos (2 * pi * f0 / Fs))\<^sup>2
              + 4 * (sin (2 * pi * f0 / Fs) / (2 * Q) / 10 powr (g / 40))\<^sup>2
                  * (sin (2 * pi * freq / Fs))\<^sup>2 \<noteq> 0"
  shows "getBiquadMagnitude freq Peaking f0 Q g =
           Some (10 * log 10 (max
             ((4 * (cos (2 * pi * freq / Fs) - cos (2 * pi * f0 / Fs))\<^sup>2
                + 4 * (sin (2 * pi * f0 / Fs) / (2 * Q) * 10 powr (g / 40))\<^sup>2
                    * (sin (2 * pi * freq / Fs))\<^sup>2)
              / (4 * (cos (2 * pi * freq / Fs) - cos (2 * pi * f0 / Fs))\<^sup>2
                + 4 * (sin (2 * pi * f0 / Fs) / (2 * Q) / 10 powr (g / 40))\<^sup>2
                    * (sin (2 * pi * freq / Fs))\<^sup>2))
             (1 / 10 ^ 20)))"
proof -
  have "getBiquadMagnitude freq Peaking f0 Q g
          = evalMagnitude freq
              (1 + sin (2 * pi * f0 / Fs) / (2 * Q) * 10 powr (g / 40),
               -2 * cos (2 * pi * f0 / Fs),
               1 - sin (2 * pi * f0 / Fs) / (2 * Q) * 10 powr (g / 40),
               1 + sin (2 * pi * f0 / Fs) / (2 * Q) / 10 powr (g / 40),
               -2 * cos (2 * pi * f0 / Fs),
               1 - sin (2 * pi * f0 / Fs) / (2 * Q) / 10 powr (g / 40))"
    using Q by (simp add: getBiquadMagnitude_def biquadCoefficients_def Let_def)
  also have "\<dots> = Some (10 * log 10 (max
             ((4 * (cos (2 * pi * freq / Fs) - cos (2 * pi * f0 / Fs))\<^sup>2
                + 4 * (sin (2 * pi * f0 / Fs) / (2 * Q) * 10 powr (g / 40))\<^sup>2
                    * (sin (2 * pi * freq / Fs))\<^sup>2)
              / (4 * (cos (2 * pi * freq / Fs) - cos (2 * pi * f0 / Fs))\<^sup>2
                + 4 * (sin (2 * pi * f0 / Fs) / (2 * Q) / 10 powr (g / 40))\<^sup>2
                    * (sin (2 * pi * freq / Fs))\<^sup>2))
             (1 / 10 ^ 20)))"
    unfolding evalMagnitude_eq peaking_respSq using a0 D by (simp only: if_False simp_thms)
  finally show ?thesis .
qed


lemma powr_gain_bound:
  assumes "-200 \<le> g"
  shows "1 / 10 ^ 20 \<le> (10::real) powr (g / 10)"
proof -
  have "(10::real) powr (-20) \<le> 10 powr (g / 10)"
    using assms by (intro powr_mono) simp_all
  moreover have "(10::real) powr (-20) = 1 / 10 ^ 20"
    by (simp add: powr_minus_divide)
  ultimately show ?thesis by simp
qed

lemma peaking_offcentre_ne:
  assumes Q: "Q \<noteq> 0"
    and a0: "1 + sin (2 * pi * f0 / Fs) / (2 * Q) / 10 powr (g / 40) \<noteq> 0"
    and c: "cos (2 * pi * freq / Fs) \<noteq> cos (2 * pi * f0 / Fs)"
    and g: "g \<noteq> 0" "-200 \<le> g"
  shows "getBiquadMagnitude freq Peaking f0 Q g \<noteq> Some g"
proof
  define A where "A = (10::real) powr (g / 40)"
  define d where "d = (cos (2 * pi * freq / Fs) - cos (2 * pi * f0 / Fs))\<^sup>2"
  define k where "k = sin (2 * pi * f0 / Fs) / (2 * Q)"
  define t where "t = (sin (2 * pi * freq / Fs))\<^sup>2"
  define N where "N = 4 * d + 4 * (k * A)\<^sup>2 * t"
  define D where "D = 4 * d + 4 * (k / A)\<^sup>2 * t"
  have A: "0 < A" by (simp add: A_def)
  have d: "0 < d" using c by (simp add: d_def)
  have t: "0 \<le> t" by (simp add: t_def)
  have D: "0 < D"
  proof -
    have "0 \<le> 4 * (k / A)\<^sup>2 * t" using t by simp
    then show ?thesis using d unfolding D_def by linarith
  qed
  have A4: "A ^ 4 = 10 powr (g / 10)" by (simp add: A_def powr_power)
  have A4_ne: "A ^ 4 \<noteq> 1"
  proof
    assume "A ^ 4 = 1"
    then have "(10::real) powr (g / 10) = 10 powr 0" using A4 by simp
    then have "g / 10 = 0" by simp
    with g show False by simp
  qed
  assume eq: "getBiquadMagnitude freq Peaking f0 Q g = Some g"
  define e where "e = (1::real) / 10 ^ 20"
  have e: "0 < e" by (simp add: e_def)
  have "getBiquadMagnitude freq Peaking f0 Q g = Some (10 * log 10 (max (N / D) e))"
    unfolding N_def D_def d_def k_def t_def A_def e_def
    by (rule peaking_magnitude [OF Q a0])
       (use D in \<open>simp add: D_def d_def k_def t_def A_def\<close>)
  with eq have lg: "log 10 (max (N / D) e) = g / 10" by simp
  have pos: "0 < max (N / D) e"
    using e max.cobounded2 [of e "N / D"] by linarith
  have "10 powr (log 10 (max (N / D) e)) = max (N / D) e"
    using pos by simp
  then have m: "max (N / D) e = A ^ 4" using A4 lg by simp
  have ND: "N / D = A ^ 4 \<or> (N / D < A ^ 4 \<and> A ^ 4 = e)"
    using m by (auto simp: max_def split: if_splits)
  have expand: "A ^ 4 * D - N = 4 * d * (A ^ 4 - 1)"
    using A unfolding N_def D_def
    by (simp add: field_simps power2_eq_square power4_eq_xxxx)
  from ND show False
  proof
    assume "N / D = A ^ 4"
    with D have "N = A ^ 4 * D" by (simp add: field_simps)
    with expand have "4 * d * (A ^ 4 - 1) = 0" by simp
    with d A4_ne show False by simp
  next
    assume low: "N / D < A ^ 4 \<and> A ^ 4 = e"
    then have lt: "N / D < A ^ 4" and "A ^ 4 = e" by simp_all
    then have "A ^ 4 < 1" by (simp add: e_def)
    moreover from lt D have "N < A ^ 4 * D" by (simp add: field_simps)
    ultimately have "0 < 4 * d * (A ^ 4 - 1)" using expand by linarith
    moreover have "4 * d * (A ^ 4 - 1) < 0"
      using d \<open>A ^ 4 < 1\<close> by (simp add: mult_pos_neg)
    ultimately show False by simp
  qed
qed

text \<open>
  C5: for valid frequency, Q and gain, the magnitude of a Peaking band at its own centre
  frequency is a finite number within 0.2 dB of the band's gain (over the reals it is
  the gain itself).
\<close>

theorem peaking_centre_within_tolerance:
  assumes "MIN_FREQ \<le> f" "f \<le> MAX_FREQ" "MIN_Q \<le> Q" "Q \<le> MAX_Q"
    and "MIN_DB \<le> g" "g \<le> MAX_DB"
  shows "\<exists>m. getBiquadMagnitude f Peaking f Q g = Some m \<and> \<bar>m - g\<bar> \<le> 2 / 10"
proof -
  have "getBiquadMagnitude f Peaking f Q g = Some g"
    using assms
    by (intro peaking_center) (simp_all add: MIN_FREQ_def MAX_FREQ_def MIN_Q_def MIN_DB_def)
  then show ?thesis by simp
qed

theorem peaking_centre_within_tolerance_witness:
  "MIN_FREQ \<le> 1000 \<and> 1000 \<le> MAX_FREQ \<and> MIN_Q \<le> 1 \<and> 1 \<le> MAX_Q
     \<and> MIN_DB \<le> 6 \<and> 6 \<le> MAX_DB
     \<and> (\<exists>m. getBiquadMagnitude 1000 Peaking 1000 1 6 = Some m \<and> \<bar>m - 6\<bar> \<le> 2 / 10)"
proof -
  have h: "MIN_FREQ \<le> 1000" "1000 \<le> MAX_FREQ" "MIN_Q \<le> 1" "1 \<le> MAX_Q"
    "MIN_DB \<le> 6" "6 \<le> MAX_DB"
    by (simp_all add: MIN_FREQ_def MAX_FREQ_def MIN_Q_def MAX_Q_def MIN_DB_def MAX_DB_def)
  show ?thesis
    using h peaking_centre_within_tolerance [OF h] by simp
qed

section \<open>Preview with dynamics, composite curve\<close>

lemma w12000: "2 * pi * 12000 / Fs = pi / 2" by (simp add: Fs_def)

lemma w8000: "2 * pi * 8000 / Fs = pi / 3" by (simp add: Fs_def)

lemma trig_12000: "cos (2 * pi * 12000 / Fs) = 0" "sin (2 * pi * 12000 / Fs) = 1"
  unfolding w12000 by simp_all

lemma trig_8000: "cos (2 * pi * 8000 / Fs) = 1 / 2" "sin (2 * pi * 8000 / Fs) = sqrt 3 / 2"
  unfolding w8000 by (simp_all add: cos_60 sin_60)

lemma peaking_a0_nonzero:
  fixes s Q x :: real
  assumes "0 \<le> s" "0 < Q"
  shows "1 + s / (2 * Q) / 10 powr x \<noteq> 0"
proof -
  have "0 \<le> s / (2 * Q) / 10 powr x"
    using assms by (intro divide_nonneg_pos) simp_all
  then show ?thesis by linarith
qed

lemma peaking_flat:
  assumes Q: "Q \<noteq> 0"
    and a0: "1 + sin (2 * pi * f0 / Fs) / (2 * Q) \<noteq> 0"
    and D: "4 * (cos (2 * pi * freq / Fs) - cos (2 * pi * f0 / Fs))\<^sup>2
              + 4 * (sin (2 * pi * f0 / Fs) / (2 * Q))\<^sup>2 * (sin (2 * pi * freq / Fs))\<^sup>2 \<noteq> 0"
  shows "getBiquadMagnitude freq Peaking f0 Q 0 = Some 0"
proof -
  have "getBiquadMagnitude freq Peaking f0 Q 0
          = Some (10 * log 10 (max
             ((4 * (cos (2 * pi * freq / Fs) - cos (2 * pi * f0 / Fs))\<^sup>2
                + 4 * (sin (2 * pi * f0 / Fs) / (2 * Q) * 10 powr (0 / 40))\<^sup>2
                    * (sin (2 * pi * freq / Fs))\<^sup>2)
              / (4 * (cos (2 * pi * freq / Fs) - cos (2 * pi * f0 / Fs))\<^sup>2
                + 4 * (sin (2 * pi * f0 / Fs) / (2 * Q) / 10 powr (0 / 40))\<^sup>2
                    * (sin (2 * pi * freq / Fs))\<^sup>2))
             (1 / 10 ^ 20)))"
    by (rule peaking_magnitude [OF Q]) (use a0 D in simp_all)
  also have "\<dots> = Some 0"
    using D by simp
  finally show ?thesis .
qed

text \<open>
  C6, counterexample: an enabled Peaking band at 12 kHz with gain 0, Q 1 and dynamics
  enabled with range -6. At the query frequency 8 kHz its static magnitude is 0 dB, and
  its preview magnitude is not 0 + (-6) dB.
\<close>

theorem preview_is_not_static_plus_range:
  "enabled previewBand \<and> dyn_enabled (dynamic previewBand)
     \<and> band_type previewBand = Peaking
     \<and> range (dynamic previewBand) = -6
     \<and> getMagResponse 8000 previewBand False = Some 0
     \<and> getMagResponse 8000 previewBand True \<noteq> Some (0 + (-6))"
proof -
  have static: "getBiquadMagnitude 8000 Peaking 12000 1 0 = Some 0"
    by (rule peaking_flat) (simp_all only: trig_12000 trig_8000, simp_all add: power_divide)
  have a0: "1 + sin (2 * pi * 12000 / Fs) / (2 * 1) / 10 powr (- 6 / 40) \<noteq> 0"
    unfolding trig_12000 by (rule peaking_a0_nonzero) simp_all
  have preview: "getBiquadMagnitude 8000 Peaking 12000 1 (- 6) \<noteq> Some (- 6)"
    by (rule peaking_offcentre_ne) (use a0 in \<open>simp_all only: trig_12000 trig_8000\<close>, simp_all)
  show ?thesis
    using static preview
    by (simp add: previewBand_def getMagResponse_def DEFAULT_DYNAMIC_SETTINGS_def)
qed

text \<open>
  C6, as amended: for an enabled band with dynamics enabled and a gain-bearing filter type
  the preview magnitude at every query frequency is the static magnitude of the same band
  with its gain replaced by gain + range (the range is added to the gain parameter, not
  to the magnitude); for a band whose type is not gain-bearing or whose dynamics is
  disabled the preview magnitude is the static magnitude exactly. At the centre frequency
  of an in-range Peaking band the preview magnitude is the static magnitude plus range.
\<close>

theorem preview_is_static_at_shifted_gain:
  "(enabled band \<and> dyn_enabled (dynamic band)
      \<and> (band_type band = Peaking \<or> band_type band = LowShelf \<or> band_type band = HighShelf)
      \<longrightarrow> getMagResponse freq band True
            = getMagResponse freq (band\<lparr>gain := gain band + range (dynamic band)\<rparr>) False)
   \<and> (\<not> dyn_enabled (dynamic band)
        \<or> \<not> (band_type band = Peaking \<or> band_type band = LowShelf \<or> band_type band = HighShelf)
      \<longrightarrow> getMagResponse freq band True = getMagResponse freq band False)
   \<and> (enabled band \<and> dyn_enabled (dynamic band) \<and> band_type band = Peaking
        \<and> inRange band \<and> -200 \<le> gain band + range (dynamic band)
      \<longrightarrow> getMagResponse (frequency band) band False = Some (gain band)
          \<and> getMagResponse (frequency band) band True
                = Some (gain band + range (dynamic band)))"
proof (intro conjI impI)
  assume "enabled band \<and> dyn_enabled (dynamic band)
      \<and> (band_type band = Peaking \<or> band_type band = LowShelf \<or> band_type band = HighShelf)"
  then show "getMagResponse freq band True
            = getMagResponse freq (band\<lparr>gain := gain band + range (dynamic band)\<rparr>) False"
    by (simp add: getMagResponse_def)
next
  assume "\<not> dyn_enabled (dynamic band)
        \<or> \<not> (band_type band = Peaking \<or> band_type band = LowShelf \<or> band_type band = HighShelf)"
  then show "getMagResponse freq band True = getMagResponse freq band False"
    by (auto simp: getMagResponse_def)
next
  assume h: "enabled band \<and> dyn_enabled (dynamic band) \<and> band_type band = Peaking
        \<and> inRange band \<and> -200 \<le> gain band + range (dynamic band)"
  then have f: "0 < frequency band" "frequency band < 24000" and Q: "0 < q band"
    and g: "-200 \<le> gain band"
    by (simp_all add: inRange_def MIN_FREQ_def MAX_FREQ_def MIN_Q_def MIN_DB_def)
  from h show "getMagResponse (frequency band) band False = Some (gain band)"
    using peaking_center [OF f Q g] by (simp add: getMagResponse_def)
next
  assume h: "enabled band \<and> dyn_enabled (dynamic band) \<and> band_type band = Peaking
        \<and> inRange band \<and> -200 \<le> gain band + range (dynamic band)"
  then have f: "0 < frequency band" "frequency band < 24000" and Q: "0 < q band"
    and g: "-200 \<le> gain band + range (dynamic band)"
    by (simp_all add: inRange_def MIN_FREQ_def MAX_FREQ_def MIN_Q_def MIN_DB_def)
  from h show "getMagResponse (frequency band) band True
                = Some (gain band + range (dynamic band))"
    using peaking_center [OF f Q g] by (simp add: getMagResponse_def)
qed

lemma previewBand_facts:
  "enabled previewBand" "dyn_enabled (dynamic previewBand)" "band_type previewBand = Peaking"
  "inRange previewBand" "gain previewBand = 0" "range (dynamic previewBand) = -6"
  "frequency previewBand = 12000"
  by (simp_all add: previewBand_def DEFAULT_DYNAMIC_SETTINGS_def inRange_def
      MIN_FREQ_def MAX_FREQ_def MIN_Q_def MAX_Q_def MIN_DB_def MAX_DB_def)

text \<open>
  C6, witness: the amended statement at the band of the counterexample (dynamics
  enabled) and at a default band (dynamics disabled).
\<close>

theorem preview_is_static_at_shifted_gain_witness:
  "getMagResponse 8000 previewBand True
     = getMagResponse 8000 (previewBand\<lparr>gain := -6\<rparr>) False
   \<and> getMagResponse 8000 (createDefaultBand ''band-2'' 1000 0) True
       = getMagResponse 8000 (createDefaultBand ''band-2'' 1000 0) False
   \<and> getMagResponse 12000 previewBand False = Some 0
   \<and> getMagResponse 12000 previewBand True = Some (-6)"
  using preview_is_static_at_shifted_gain [of previewBand 8000]
    preview_is_static_at_shifted_gain [of "createDefaultBand ''band-2'' 1000 0" 8000]
    previewBand_facts
  by (simp add: createDefaultBand_def DEFAULT_DYNAMIC_SETTINGS_def)

lemma addDb_simps:
  "addDb None y = None" "addDb (Some a) None = None" "addDb (Some a) (Some b) = Some (a + b)"
  by (simp_all add: addDb_def)

lemma fold_addDb_None:
  "fold (\<lambda>band totalDb. addDb totalDb (g band)) bands None = None"
  by (induction bands) (simp_all add: addDb_simps)

lemma fold_addDb_Some:
  "fold (\<lambda>band totalDb. addDb totalDb (g band)) bands (Some a)
     = map_option (\<lambda>ms. a + sum_list ms) (those (map g bands))"
proof (induction bands arbitrary: a)
  case Nil
  show ?case by simp
next
  case (Cons b bands)
  show ?case
  proof (cases "g b")
    case None
    then show ?thesis by (simp add: addDb_simps fold_addDb_None)
  next
    case (Some m)
    then show ?thesis
      by (cases "those (map g bands)") (simp_all add: addDb_simps Cons.IH)
  qed
qed

lemma sumDb_sum_list:
  "sumDb freq bands d
     = map_option sum_list (those (map (\<lambda>band. getMagResponse freq band d) bands))"
  unfolding sumDb_def fold_addDb_Some by simp

lemma disabled_contributes_zero:
  "\<not> enabled band \<Longrightarrow> getMagResponse freq band d = Some 0"
  by (simp add: getMagResponse_def)

lemma those_sum_filter_enabled:
  "map_option sum_list (those (map (\<lambda>band. getMagResponse freq band d) bands))
     = map_option sum_list
         (those (map (\<lambda>band. getMagResponse freq band d) (filter enabled bands)))"
proof (induction bands)
  case Nil
  show ?case by simp
next
  case (Cons b bands)
  show ?case
  proof (cases "enabled b")
    case True
    with Cons.IH show ?thesis
      by (cases "getMagResponse freq b d";
          cases "those (map (\<lambda>band. getMagResponse freq band d) bands)";
          cases "those (map (\<lambda>band. getMagResponse freq band d) (filter enabled bands))")
        simp_all
  next
    case False
    with Cons.IH show ?thesis
      by (cases "those (map (\<lambda>band. getMagResponse freq band d) bands)";
          cases "those (map (\<lambda>band. getMagResponse freq band d) (filter enabled bands))")
        (simp_all add: disabled_contributes_zero)
  qed
qed

text \<open>
  C7, as amended: the composite magnitude at a query frequency is the arithmetic sum in
  dB of the enabled bands' magnitudes there, clipped to [-60, 30] dB; every disabled band
  contributes exactly 0 dB; where the sum lies in [-60, 30] the composite magnitude is
  the sum itself.
\<close>

theorem composite_is_clipped_sum:
  "compositeDb freq bands d
     = map_option (\<lambda>totalDb. max (-60) (min 30 totalDb))
         (map_option sum_list
            (those (map (\<lambda>band. getMagResponse freq band d) (filter enabled bands))))
   \<and> (\<forall>band :: EqBand. \<not> enabled band \<longrightarrow> getMagResponse freq band d = Some 0)
   \<and> (\<forall>total. sumDb freq bands d = Some total \<and> -60 \<le> total \<and> total \<le> 30
         \<longrightarrow> compositeDb freq bands d = Some total)"
proof (intro conjI allI impI)
  show "compositeDb freq bands d
     = map_option (\<lambda>totalDb. max (-60) (min 30 totalDb))
         (map_option sum_list
            (those (map (\<lambda>band. getMagResponse freq band d) (filter enabled bands))))"
    unfolding compositeDb_def sumDb_sum_list those_sum_filter_enabled [of freq d bands] ..
next
  fix band :: EqBand assume "\<not> enabled band"
  then show "getMagResponse freq band d = Some 0" by (rule disabled_contributes_zero)
next
  fix total
  assume "sumDb freq bands d = Some total \<and> -60 \<le> total \<and> total \<le> 30"
  then show "compositeDb freq bands d = Some total"
    by (simp add: compositeDb_def)
qed

lemma loudBand_magnitude: "getMagResponse 12000 (loudBand i) d = Some 30"
proof -
  have "getBiquadMagnitude 12000 Peaking 12000 1 30 = Some 30"
    by (rule peaking_center) simp_all
  then show ?thesis
    by (simp add: loudBand_def createDefaultBand_def getMagResponse_def
        DEFAULT_DYNAMIC_SETTINGS_def)
qed

text \<open>
  C7, counterexample: two enabled Peaking bands at 12 kHz with gain 30 dB each. At
  12 kHz each has magnitude 30 dB, and the composite magnitude is 30 dB, not 60 dB.
\<close>

theorem composite_is_not_plain_sum:
  "getMagResponse 12000 (loudBand ''band-1'') False = Some 30
   \<and> getMagResponse 12000 (loudBand ''band-2'') False = Some 30
   \<and> compositeDb 12000 [loudBand ''band-1'', loudBand ''band-2''] False = Some 30
   \<and> compositeDb 12000 [loudBand ''band-1'', loudBand ''band-2''] False \<noteq> Some (30 + 30)"
  by (simp add: compositeDb_def sumDb_def addDb_simps loudBand_magnitude)

text \<open>
  C7, witness: one enabled and one disabled band.
\<close>

theorem composite_is_clipped_sum_witness:
  "compositeDb 12000 [loudBand ''band-1'', (loudBand ''band-2'')\<lparr>enabled := False\<rparr>] False
     = Some 30
   \<and> getMagResponse 12000 ((loudBand ''band-2'')\<lparr>enabled := False\<rparr>) False = Some 0"
proof -
  let ?off = "(loudBand ''band-2'')\<lparr>enabled := False\<rparr>"
  have off: "\<not> enabled ?off" by simp
  have sum: "sumDb 12000 [loudBand ''band-1'', ?off] False = Some 30"
    by (simp add: sumDb_def addDb_simps loudBand_magnitude disabled_contributes_zero)
  note inst = composite_is_clipped_sum [of 12000 "[loudBand ''band-1'', ?off]" False]
  from inst have zero: "\<forall>band :: EqBand. \<not> enabled band \<longrightarrow> getMagResponse 12000 band False = Some 0"
    by (rule conjunct1 [OF conjunct2])
  from inst have "\<forall>total. sumDb 12000 [loudBand ''band-1'', ?off] False = Some total
                    \<and> -60 \<le> total \<and> total \<le> 30
                  \<longrightarrow> compositeDb 12000 [loudBand ''band-1'', ?off] False = Some total"
    by (rule conjunct2 [OF conjunct2])
  with sum have "compositeDb 12000 [loudBand ''band-1'', ?off] False = Some 30" by simp
  moreover from zero off have "getMagResponse 12000 ?off False = Some 0" by blast
  ultimately show ?thesis by simp
qed

lemma trig_999999:
  "cos (2 * pi * 999999 / Fs) = cos (2 * pi * 8001 / Fs)"
  "sin (2 * pi * 999999 / Fs) = - sin (2 * pi * 8001 / Fs)"
proof -
  have "2 * pi * 999999 / Fs = - (2 * pi * 8001 / Fs) + 2 * pi * of_int 21"
    by (simp add: Fs_def)
  then have "\<exists>n::int. 2 * pi * 999999 / Fs = - (2 * pi * 8001 / Fs) + 2 * pi * of_int n"
    by (rule exI)
  then have "sin (2 * pi * 999999 / Fs) = sin (- (2 * pi * 8001 / Fs))
               \<and> cos (2 * pi * 999999 / Fs) = cos (- (2 * pi * 8001 / Fs))"
    by (simp only: sin_cos_eq_iff)
  then show "cos (2 * pi * 999999 / Fs) = cos (2 * pi * 8001 / Fs)"
    "sin (2 * pi * 999999 / Fs) = - sin (2 * pi * 8001 / Fs)"
    by simp_all
qed

lemma trig_8001:
  "0 < cos (2 * pi * 8001 / Fs)" "0 < sin (2 * pi * 8001 / Fs)"
proof -
  have lo: "0 < 2 * pi * 8001 / Fs" by (simp add: Fs_def)
  have hi: "2 * pi * 8001 / Fs < pi / 2"
    using pi_gt_zero by (simp add: Fs_def field_simps)
  from lo hi show "0 < cos (2 * pi * 8001 / Fs)" by (simp add: cos_gt_zero)
  from hi have "2 * pi * 8001 / Fs < pi" using pi_gt_zero by linarith
  with lo show "0 < sin (2 * pi * 8001 / Fs)" by (rule sin_gt_zero)
qed

lemma trig_20000:
  "cos (2 * pi * 20000 / Fs) = - (sqrt 3 / 2)" "sin (2 * pi * 20000 / Fs) = 1 / 2"
proof -
  have "2 * pi * 20000 / Fs = pi - pi / 6" by (simp add: Fs_def)
  then show "cos (2 * pi * 20000 / Fs) = - (sqrt 3 / 2)" "sin (2 * pi * 20000 / Fs) = 1 / 2"
    by (simp_all only: cos_pi_minus sin_pi_minus cos_30 sin_30)
qed

lemma peaking_centre_general:
  assumes s: "sin (2 * pi * f / Fs) \<noteq> 0" and Q: "Q \<noteq> 0"
    and a0: "1 + sin (2 * pi * f / Fs) / (2 * Q) / 10 powr (g / 40) \<noteq> 0"
    and g: "-200 \<le> g"
  shows "getBiquadMagnitude f Peaking f Q g = Some g"
proof -
  define A where "A = (10::real) powr (g / 40)"
  define k where "k = sin (2 * pi * f / Fs) / (2 * Q)"
  define t where "t = (sin (2 * pi * f / Fs))\<^sup>2"
  have A: "0 < A" by (simp add: A_def)
  have k: "k \<noteq> 0" using s Q by (simp add: k_def)
  have t: "t \<noteq> 0" using s by (simp add: t_def)
  have D: "4 * (k / A)\<^sup>2 * t \<noteq> 0" using A k t by simp
  have ratio: "(4 * (k * A)\<^sup>2 * t) / (4 * (k / A)\<^sup>2 * t) = A ^ 4"
    using A k t by (simp add: field_simps power2_eq_square power4_eq_xxxx)
  have big: "1 / 10 ^ 20 \<le> A ^ 4"
    using powr_gain_bound [OF g] by (simp add: A_def powr_power)
  have "getBiquadMagnitude f Peaking f Q g
          = Some (10 * log 10 (max ((4 * (k * A)\<^sup>2 * t) / (4 * (k / A)\<^sup>2 * t)) (1 / 10 ^ 20)))"
    using peaking_magnitude [OF Q a0, of f] D
    by (simp add: A_def k_def t_def)
  also have "\<dots> = Some (10 * log 10 (A ^ 4))"
    unfolding ratio max_absorb1 [OF big] ..
  also have "10 * log 10 (A ^ 4) = g"
    unfolding A_def log10_powr4 by simp
  finally show ?thesis .
qed

lemma unit_a0_nonzero:
  fixes s :: real
  assumes "- 1 \<le> s"
  shows "1 + s / (2 * 1) \<noteq> 0"
  using assms by simp

lemma peaking_flat_everywhere:
  assumes s: "sin (2 * pi * f0 / Fs) \<noteq> 0" and Q: "Q \<noteq> 0"
    and a0: "1 + sin (2 * pi * f0 / Fs) / (2 * Q) \<noteq> 0"
  shows "getBiquadMagnitude freq Peaking f0 Q 0 = Some 0"
proof (rule peaking_flat [OF Q a0])
  have k: "sin (2 * pi * f0 / Fs) / (2 * Q) \<noteq> 0" using s Q by simp
  have "respSq (1 + sin (2 * pi * f0 / Fs) / (2 * Q)) (-2 * cos (2 * pi * f0 / Fs))
          (1 - sin (2 * pi * f0 / Fs) / (2 * Q)) (2 * pi * freq / Fs) \<noteq> 0"
    using k cos_w0_strict [OF s] by (rule respSq_two_pole_nonzero)
  then show "4 * (cos (2 * pi * freq / Fs) - cos (2 * pi * f0 / Fs))\<^sup>2
              + 4 * (sin (2 * pi * f0 / Fs) / (2 * Q))\<^sup>2 * (sin (2 * pi * freq / Fs))\<^sup>2 \<noteq> 0"
    unfolding peaking_respSq .
qed

lemma default_band_999999_flat:
  "getMagResponse freq (createDefaultBand i 999999 k) d = Some 0"
proof -
  have s: "sin (2 * pi * 999999 / Fs) \<noteq> 0"
    unfolding trig_999999 using trig_8001(2) by simp
  have a0: "1 + sin (2 * pi * 999999 / Fs) / (2 * 1) \<noteq> 0"
    by (rule unit_a0_nonzero) (rule sin_ge_minus_one)
  have "getBiquadMagnitude freq Peaking 999999 1 0 = Some 0"
    using s _ a0 by (rule peaking_flat_everywhere) simp
  then show ?thesis
    by (simp add: getMagResponse_def createDefaultBand_def DEFAULT_DYNAMIC_SETTINGS_def)
qed

section \<open>The bytes of the WAVE file\<close>

lemma length_le_bytes [simp]: "length (le_bytes n v) = n"
  by (induction n arbitrary: v) simp_all

lemma le_val_le_bytes: "le_val (le_bytes n v) = v mod 256 ^ n"
proof (induction n arbitrary: v)
  case 0
  show ?case by simp
next
  case (Suc n)
  have "le_val (le_bytes (Suc n) v) = v mod 256 + 256 * (v div 256 mod 256 ^ n)"
    by (simp add: Suc.IH)
  also have "\<dots> = v mod (256 * 256 ^ n)"
    by (simp add: mod_mult2_eq)
  finally show ?case by simp
qed

lemma writeBytes_app:
  "writeBytes (length pre) bs (pre @ replicate (length bs + m) 0)
     = Some ((pre @ bs) @ replicate m 0)"
  by (simp add: writeBytes_def)

lemma setUint32_app:
  "setUint32 d (pre @ replicate (4 + m) 0, length pre)
     = Some ((pre @ le_bytes 4 (nat (d mod 4294967296))) @ replicate m 0,
             length (pre @ le_bytes 4 (nat (d mod 4294967296))))"
  using writeBytes_app [of pre "le_bytes 4 (nat (d mod 4294967296))" m]
  by (simp add: setUint32_def del: le_bytes.simps)

lemma setUint16_app:
  "setUint16 d (pre @ replicate (2 + m) 0, length pre)
     = Some ((pre @ le_bytes 2 (nat (d mod 65536))) @ replicate m 0,
             length (pre @ le_bytes 2 (nat (d mod 65536))))"
  using writeBytes_app [of pre "le_bytes 2 (nat (d mod 65536))" m]
  by (simp add: setUint16_def del: le_bytes.simps)

lemma length_headerBytes [simp]: "length (headerBytes buffer len) = 44"
  by (simp add: headerBytes_def)

lemma writeHeader_zeros:
  "writeHeader buffer len (replicate (44 + n) 0, 0)
     = Some (headerBytes buffer len @ replicate n 0, 44)"
proof -
  have shape: "(replicate (44 + n) (0::nat), 0::nat)
       = ([] @ replicate (4 + (4 + (4 + (4 + (4 + (2 + (2 + (4 + (4 + (2 + (2 + (4 + (4 + n))))))))))))) 0,
          length ([] :: nat list))"
    by simp
  have "writeHeader buffer len (replicate (44 + n) 0, 0)
     = Some (((((((((((((([]
          @ le_bytes 4 (nat (0x46464952 mod 4294967296)))
          @ le_bytes 4 (nat ((int len - 8) mod 4294967296)))
          @ le_bytes 4 (nat (0x45564157 mod 4294967296)))
          @ le_bytes 4 (nat (0x20746d66 mod 4294967296)))
          @ le_bytes 4 (nat (16 mod 4294967296)))
          @ le_bytes 2 (nat (1 mod 65536)))
          @ le_bytes 2 (nat (int (numberOfChannels buffer) mod 65536)))
          @ le_bytes 4 (nat (int (sampleRate buffer) mod 4294967296)))
          @ le_bytes 4 (nat ((int (sampleRate buffer) * 2 * int (numberOfChannels buffer)) mod 4294967296)))
          @ le_bytes 2 (nat ((int (numberOfChannels buffer) * 2) mod 65536)))
          @ le_bytes 2 (nat (16 mod 65536)))
          @ le_bytes 4 (nat (0x61746164 mod 4294967296)))
          @ le_bytes 4 (nat ((int len - 44) mod 4294967296))) @ replicate n 0, 44)"
    unfolding shape writeHeader_def Let_def
    apply (simp only: setUint32_app setUint16_app Option.bind.simps)
    apply (simp only: snd_conv length_append length_le_bytes list.size)
    apply (simp del: le_bytes.simps)
    done
  then show ?thesis
    by (simp add: headerBytes_def del: le_bytes.simps)
qed

lemma length_sampleBytes [simp]: "length (sampleBytes buffer pos i) = 2"
  by (simp add: sampleBytes_def)

lemma frameBytes_done: "numberOfChannels buffer \<le> i \<Longrightarrow> frameBytes buffer pos i = []"
  by (simp add: frameBytes_def)

lemma frameBytes_step:
  "i < numberOfChannels buffer \<Longrightarrow>
     frameBytes buffer pos i = sampleBytes buffer pos i @ frameBytes buffer pos (Suc i)"
  by (simp add: frameBytes_def upt_conv_Cons)

lemma interleave_app:
  assumes "2 * (numberOfChannels buffer - i) \<le> n" "length pre = 44 + offset"
  shows "interleave buffer pos i (pre @ replicate n 0, offset)
           = Some ((pre @ frameBytes buffer pos i)
                     @ replicate (n - 2 * (numberOfChannels buffer - i)) 0,
                   offset + 2 * (numberOfChannels buffer - i))"
  using assms
proof (induction "numberOfChannels buffer - i" arbitrary: i pre n offset)
  case 0
  then have "numberOfChannels buffer \<le> i" by simp
  then show ?case
    by (simp add: interleave.simps [of buffer pos i] frameBytes_done)
next
  case (Suc k)
  then have i: "i < numberOfChannels buffer" and k: "k = numberOfChannels buffer - Suc i"
    by simp_all
  define m where "m = n - 2"
  have n: "n = 2 + m" and m: "2 * (numberOfChannels buffer - Suc i) \<le> m"
    using Suc.prems(1) i unfolding m_def by linarith+
  have w: "setInt16 (44 + offset) (quantize (sampleAt (channelData buffer ! i) pos))
             (pre @ replicate n 0)
           = Some ((pre @ sampleBytes buffer pos i) @ replicate m 0)"
    using writeBytes_app [of pre "sampleBytes buffer pos i" m] Suc.prems(2)
    by (simp add: setInt16_def n sampleBytes_def del: le_bytes.simps)
  have len: "length (pre @ sampleBytes buffer pos i) = 44 + (offset + 2)"
    using Suc.prems(2) by simp
  have "interleave buffer pos i (pre @ replicate n 0, offset)
          = interleave buffer pos (Suc i) ((pre @ sampleBytes buffer pos i) @ replicate m 0, offset + 2)"
    using i w by (simp add: interleave.simps [of buffer pos i])
  also have "\<dots> = Some (((pre @ sampleBytes buffer pos i) @ frameBytes buffer pos (Suc i))
                     @ replicate (m - 2 * (numberOfChannels buffer - Suc i)) 0,
                   (offset + 2) + 2 * (numberOfChannels buffer - Suc i))"
    by (rule Suc.hyps(1) [OF k m len])
  also have "\<dots> = Some ((pre @ frameBytes buffer pos i)
                     @ replicate (n - 2 * (numberOfChannels buffer - i)) 0,
                   offset + 2 * (numberOfChannels buffer - i))"
    using i by (simp add: frameBytes_step n Suc_diff_Suc [symmetric] del: replicate_Suc)
       
  finally show ?case .
qed

lemma length_frameBytes [simp]:
  "length (frameBytes buffer pos i) = 2 * (numberOfChannels buffer - i)"
  by (simp add: frameBytes_def length_concat comp_def sum_list_triv)

lemma dataBytes_done: "bufLength buffer \<le> pos \<Longrightarrow> dataBytes buffer pos = []"
  by (simp add: dataBytes_def)

lemma dataBytes_step:
  "pos < bufLength buffer \<Longrightarrow>
     dataBytes buffer pos = frameBytes buffer pos 0 @ dataBytes buffer (Suc pos)"
  by (simp add: dataBytes_def upt_conv_Cons)

lemma writeData_app:
  assumes "2 * numberOfChannels buffer * (bufLength buffer - pos) \<le> n"
    "length pre = 44 + offset"
  shows "writeData buffer pos (pre @ replicate n 0, offset)
           = Some ((pre @ dataBytes buffer pos)
                     @ replicate (n - 2 * numberOfChannels buffer * (bufLength buffer - pos)) 0,
                   offset + 2 * numberOfChannels buffer * (bufLength buffer - pos))"
  using assms
proof (induction "bufLength buffer - pos" arbitrary: pos pre n offset)
  case 0
  then have "bufLength buffer \<le> pos" by simp
  then show ?case
    by (simp add: writeData.simps [of buffer pos] dataBytes_done)
next
  case (Suc k)
  define C where "C = numberOfChannels buffer"
  from Suc have p: "pos < bufLength buffer" and k: "k = bufLength buffer - Suc pos"
    by simp_all
  have "bufLength buffer - pos = Suc (bufLength buffer - Suc pos)"
    using p by simp
  then have split: "2 * C * (bufLength buffer - pos) = 2 * C + 2 * C * (bufLength buffer - Suc pos)"
    by (simp only: mult_Suc_right)
  define m where "m = n - 2 * C"
  have n: "2 * (C - 0) \<le> n" and m: "2 * C * (bufLength buffer - Suc pos) \<le> m"
    using Suc.prems(1) split unfolding m_def C_def by linarith+
  have len: "length (pre @ frameBytes buffer pos 0) = 44 + (offset + 2 * C)"
    using Suc.prems(2) by (simp add: C_def)
  have "writeData buffer pos (pre @ replicate n 0, offset)
          = writeData buffer (Suc pos)
              ((pre @ frameBytes buffer pos 0) @ replicate m 0, offset + 2 * C)"
    using p interleave_app [OF n [unfolded C_def] Suc.prems(2), of pos]
    by (simp add: writeData.simps [of buffer pos] m_def C_def)
  also have "\<dots> = Some (((pre @ frameBytes buffer pos 0) @ dataBytes buffer (Suc pos))
                     @ replicate (m - 2 * C * (bufLength buffer - Suc pos)) 0,
                   (offset + 2 * C) + 2 * C * (bufLength buffer - Suc pos))"
    unfolding C_def by (rule Suc.hyps(1) [OF k m [unfolded C_def] len [unfolded C_def]])
  also have "\<dots> = Some ((pre @ dataBytes buffer pos)
                     @ replicate (n - 2 * C * (bufLength buffer - pos)) 0,
                   offset + 2 * C * (bufLength buffer - pos))"
    using p by (simp add: dataBytes_step [OF p] split m_def)
  finally show ?case unfolding C_def .
qed

lemma bufferToWav_bytes:
  "bufferToWav buffer
     = Some (headerBytes buffer (bufLength buffer * numberOfChannels buffer * 2 + 44)
             @ dataBytes buffer 44
             @ replicate (2 * numberOfChannels buffer * min 44 (bufLength buffer)) 0)"
proof -
  define C where "C = numberOfChannels buffer"
  define F where "F = bufLength buffer"
  define hdr where "hdr = headerBytes buffer (F * C * 2 + 44)"
  have hl: "length hdr = 44 + 0" by (simp add: hdr_def)
  have fit: "2 * numberOfChannels buffer * (bufLength buffer - 44) \<le> F * C * 2"
    by (simp add: C_def F_def)
  have rest: "F * C * 2 - 2 * numberOfChannels buffer * (bufLength buffer - 44) = 2 * C * min 44 F"
    by (cases "44 \<le> F") (simp_all add: C_def F_def min_def algebra_simps)
  have h: "writeHeader buffer (F * C * 2 + 44) (replicate (F * C * 2 + 44) 0, 0)
             = Some (hdr @ replicate (F * C * 2) 0, 44)"
    using writeHeader_zeros [of buffer "F * C * 2 + 44" "F * C * 2"]
    by (simp add: hdr_def add.commute)
  have d: "writeData buffer 44 (hdr @ replicate (F * C * 2) 0, 0)
             = Some ((hdr @ dataBytes buffer 44) @ replicate (2 * C * min 44 F) 0,
                     0 + 2 * numberOfChannels buffer * (bufLength buffer - 44))"
    using writeData_app [OF fit hl] unfolding rest .
  have "bufferToWav buffer
          = Some (hdr @ dataBytes buffer 44 @ replicate (2 * C * min 44 F) 0)"
    unfolding bufferToWav_def Let_def C_def [symmetric] F_def [symmetric] h
    by (simp add: d)
  then show ?thesis unfolding hdr_def C_def F_def .
qed

lemma le_bytes_2: "le_bytes 2 v = [v mod 256, v div 256 mod 256]"
proof -
  have "(2::nat) = Suc (Suc 0)" by simp
  then show ?thesis by (simp only: le_bytes.simps)
qed

lemma le_bytes_4:
  "le_bytes 4 v = [v mod 256, v div 256 mod 256, v div 256 div 256 mod 256,
                   v div 256 div 256 div 256 mod 256]"
proof -
  have "(4::nat) = Suc (Suc (Suc (Suc 0)))" by simp
  then show ?thesis by (simp only: le_bytes.simps)
qed

lemma header_tags:
  "le_bytes 4 0x46464952 = [0x52, 0x49, 0x46, 0x46]"
  "le_bytes 4 0x45564157 = [0x57, 0x41, 0x56, 0x45]"
  "le_bytes 4 0x20746d66 = [0x66, 0x6d, 0x74, 0x20]"
  "le_bytes 4 0x61746164 = [0x64, 0x61, 0x74, 0x61]"
  unfolding le_bytes_4 by simp_all

lemma header_fields:
  "take 4 (headerBytes b len @ rest) = [0x52, 0x49, 0x46, 0x46]"
  "field_at 4 4 (headerBytes b len @ rest) = nat ((int len - 8) mod 4294967296)"
  "take 4 (drop 8 (headerBytes b len @ rest)) = [0x57, 0x41, 0x56, 0x45]"
  "take 4 (drop 12 (headerBytes b len @ rest)) = [0x66, 0x6d, 0x74, 0x20]"
  "field_at 4 16 (headerBytes b len @ rest) = 16"
  "field_at 2 20 (headerBytes b len @ rest) = 1"
  "field_at 2 22 (headerBytes b len @ rest) = nat (int (numberOfChannels b) mod 65536)"
  "field_at 4 24 (headerBytes b len @ rest) = nat (int (sampleRate b) mod 4294967296)"
  "field_at 4 28 (headerBytes b len @ rest)
     = nat ((int (sampleRate b) * 2 * int (numberOfChannels b)) mod 4294967296)"
  "field_at 2 32 (headerBytes b len @ rest) = nat ((int (numberOfChannels b) * 2) mod 65536)"
  "field_at 2 34 (headerBytes b len @ rest) = 16"
  "take 4 (drop 36 (headerBytes b len @ rest)) = [0x64, 0x61, 0x74, 0x61]"
  "field_at 4 40 (headerBytes b len @ rest) = nat ((int len - 44) mod 4294967296)"
proof -
  have m32: "\<And>x :: int. nat (x mod 4294967296) mod 256 ^ 4 = nat (x mod 4294967296)"
    by (simp add: nat_less_iff)
  have m16: "\<And>x :: int. nat (x mod 65536) mod 256 ^ 2 = nat (x mod 65536)"
    by (simp add: nat_less_iff)
  note c = header_tags
  show "take 4 (headerBytes b len @ rest) = [0x52, 0x49, 0x46, 0x46]"
    unfolding headerBytes_def c by (simp del: le_bytes.simps)
  show "take 4 (drop 8 (headerBytes b len @ rest)) = [0x57, 0x41, 0x56, 0x45]"
    unfolding headerBytes_def c by (simp del: le_bytes.simps)
  show "take 4 (drop 12 (headerBytes b len @ rest)) = [0x66, 0x6d, 0x74, 0x20]"
    unfolding headerBytes_def c by (simp del: le_bytes.simps)
  show "take 4 (drop 36 (headerBytes b len @ rest)) = [0x64, 0x61, 0x74, 0x61]"
    unfolding headerBytes_def c by (simp del: le_bytes.simps)
  show "field_at 4 4 (headerBytes b len @ rest) = nat ((int len - 8) mod 4294967296)"
    unfolding headerBytes_def field_at_def
    by (simp add: le_val_le_bytes m32 del: le_bytes.simps)
  show "field_at 4 16 (headerBytes b len @ rest) = 16"
    unfolding headerBytes_def field_at_def
    by (simp add: le_val_le_bytes del: le_bytes.simps)
  show "field_at 2 20 (headerBytes b len @ rest) = 1"
    unfolding headerBytes_def field_at_def
    by (simp add: le_val_le_bytes del: le_bytes.simps)
  show "field_at 2 22 (headerBytes b len @ rest) = nat (int (numberOfChannels b) mod 65536)"
    unfolding headerBytes_def field_at_def
    by (simp add: le_val_le_bytes m16 del: le_bytes.simps)
  show "field_at 4 24 (headerBytes b len @ rest) = nat (int (sampleRate b) mod 4294967296)"
    unfolding headerBytes_def field_at_def
    by (simp add: le_val_le_bytes m32 del: le_bytes.simps)
  show "field_at 4 28 (headerBytes b len @ rest)
     = nat ((int (sampleRate b) * 2 * int (numberOfChannels b)) mod 4294967296)"
    unfolding headerBytes_def field_at_def
    by (simp add: le_val_le_bytes m32 del: le_bytes.simps)
  show "field_at 2 32 (headerBytes b len @ rest) = nat ((int (numberOfChannels b) * 2) mod 65536)"
    unfolding headerBytes_def field_at_def
    by (simp add: le_val_le_bytes m16 del: le_bytes.simps)
  show "field_at 2 34 (headerBytes b len @ rest) = 16"
    unfolding headerBytes_def field_at_def
    by (simp add: le_val_le_bytes del: le_bytes.simps)
  show "field_at 4 40 (headerBytes b len @ rest) = nat ((int len - 44) mod 4294967296)"
    unfolding headerBytes_def field_at_def
    by (simp add: le_val_le_bytes m32 del: le_bytes.simps)
qed

lemma small32:
  fixes n :: nat
  assumes "n < 4294967296"
  shows "nat (int n mod 4294967296) = n"
proof -
  have "int n mod 4294967296 = int n"
    using assms by (intro mod_pos_pos_trivial) simp_all
  then show ?thesis by simp
qed

lemma small16:
  fixes n :: nat
  assumes "n < 65536"
  shows "nat (int n mod 65536) = n"
proof -
  have "int n mod 65536 = int n"
    using assms by (intro mod_pos_pos_trivial) simp_all
  then show ?thesis by simp
qed

text \<open>
  C9: for a buffer with F frames, C channels and sample rate R whose sizes fit the
  header's fields, \<open>bufferToWav\<close> returns a file of 44 + F * C * 2 bytes that starts with
  "RIFF", the size field (file size - 8, that is 36 + F * C * 2), "WAVE", a "fmt " chunk
  of length 16 with audioFormat 1, numChannels C, sampleRate R, byteRate R * C * 2,
  blockAlign C * 2 and bitsPerSample 16, and a "data" chunk of size F * C * 2.
\<close>

theorem wav_header_layout:
  assumes "bufLength b * numberOfChannels b * 2 + 36 < 2 ^ 32"
    and "sampleRate b < 2 ^ 32"
    and "sampleRate b * numberOfChannels b * 2 < 2 ^ 32"
    and "numberOfChannels b * 2 < 2 ^ 16"
  shows "\<exists>bytes. bufferToWav b = Some bytes
     \<and> length bytes = bufLength b * numberOfChannels b * 2 + 44
     \<and> take 4 bytes = [0x52, 0x49, 0x46, 0x46]
     \<and> field_at 4 4 bytes = length bytes - 8
     \<and> field_at 4 4 bytes = 36 + bufLength b * numberOfChannels b * 2
     \<and> take 4 (drop 8 bytes) = [0x57, 0x41, 0x56, 0x45]
     \<and> take 4 (drop 12 bytes) = [0x66, 0x6d, 0x74, 0x20]
     \<and> field_at 4 16 bytes = 16
     \<and> field_at 2 20 bytes = 1
     \<and> field_at 2 22 bytes = numberOfChannels b
     \<and> field_at 4 24 bytes = sampleRate b
     \<and> field_at 4 28 bytes = sampleRate b * numberOfChannels b * 2
     \<and> field_at 2 32 bytes = numberOfChannels b * 2
     \<and> field_at 2 34 bytes = 16
     \<and> take 4 (drop 36 bytes) = [0x64, 0x61, 0x74, 0x61]
     \<and> field_at 4 40 bytes = bufLength b * numberOfChannels b * 2
     \<and> length (drop 44 bytes) = bufLength b * numberOfChannels b * 2"
proof -
  define C where "C = numberOfChannels b"
  define F where "F = bufLength b"
  define R where "R = sampleRate b"
  define len where "len = F * C * 2 + 44"
  define rest where "rest = dataBytes b 44 @ replicate (2 * C * min 44 F) 0"
  have bytes: "bufferToWav b = Some (headerBytes b len @ rest)"
    unfolding rest_def len_def C_def F_def by (rule bufferToWav_bytes)
  have a: "F * C * 2 + 36 < 4294967296" "R < 4294967296" "R * C * 2 < 4294967296"
    "C * 2 < 65536"
    using assms by (simp_all add: C_def F_def R_def)
  have dl: "length (dataBytes b 44) = 2 * C * (F - 44)"
    by (simp add: dataBytes_def length_concat comp_def sum_list_triv C_def F_def)
  have rl: "length rest = F * C * 2"
    unfolding rest_def by (cases "44 \<le> F") (simp_all add: dl min_def algebra_simps)
  have riff: "nat ((int len - 8) mod 4294967296) = 36 + F * C * 2"
  proof -
    have e: "int len - 8 = int (36 + F * C * 2)" by (simp add: len_def)
    show ?thesis unfolding e by (rule small32) (use a(1) in simp)
  qed
  have data: "nat ((int len - 44) mod 4294967296) = F * C * 2"
  proof -
    have e: "int len - 44 = int (F * C * 2)" by (simp add: len_def)
    show ?thesis unfolding e by (rule small32) (use a(1) in simp)
  qed
  have chan: "nat (int C mod 65536) = C"
    by (rule small16) (use a(4) in simp)
  have rate: "nat (int R mod 4294967296) = R"
    by (rule small32) (rule a(2))
  have brate: "nat ((int R * 2 * int C) mod 4294967296) = R * C * 2"
  proof -
    have e: "int R * 2 * int C = int (R * C * 2)" by simp
    show ?thesis unfolding e by (rule small32) (rule a(3))
  qed
  have align: "nat ((int C * 2) mod 65536) = C * 2"
  proof -
    have e: "int C * 2 = int (C * 2)" by simp
    show ?thesis unfolding e by (rule small16) (rule a(4))
  qed
  have total: "length (headerBytes b len @ rest) = F * C * 2 + 44"
    by (simp add: rl)
  show ?thesis
    unfolding bytes C_def [symmetric] F_def [symmetric] R_def [symmetric]
    apply (intro exI [of _ "headerBytes b len @ rest"] conjI refl)
    apply (simp_all only: header_fields total riff data chan rate brate align
        C_def [symmetric] R_def [symmetric])
    apply (simp_all add: rl)
    done
qed

text \<open>
  C9, witness: a stereo buffer of two all-zero frames at 48 kHz.
\<close>

theorem wav_header_layout_witness:
  "bufLength silentStereo * numberOfChannels silentStereo * 2 + 36 < 2 ^ 32
   \<and> sampleRate silentStereo < 2 ^ 32
   \<and> sampleRate silentStereo * numberOfChannels silentStereo * 2 < 2 ^ 32
   \<and> numberOfChannels silentStereo * 2 < 2 ^ 16
   \<and> (\<exists>bytes. bufferToWav silentStereo = Some bytes
        \<and> length bytes = 52
        \<and> field_at 4 4 bytes = 44
        \<and> field_at 2 20 bytes = 1
        \<and> field_at 2 22 bytes = 2
        \<and> field_at 4 24 bytes = 48000
        \<and> field_at 4 28 bytes = 192000
        \<and> field_at 2 32 bytes = 4
        \<and> field_at 2 34 bytes = 16
        \<and> field_at 4 40 bytes = 8)"
proof -
  have v: "bufLength silentStereo = 2" "numberOfChannels silentStereo = 2"
    "sampleRate silentStereo = 48000"
    by (simp_all add: silentStereo_def numberOfChannels_def)
  have h: "bufLength silentStereo * numberOfChannels silentStereo * 2 + 36 < 2 ^ 32"
    "sampleRate silentStereo < 2 ^ 32"
    "sampleRate silentStereo * numberOfChannels silentStereo * 2 < 2 ^ 32"
    "numberOfChannels silentStereo * 2 < 2 ^ 16"
    unfolding v by simp_all
  from wav_header_layout [OF h] obtain bytes where
    "bufferToWav silentStereo = Some bytes"
    "length bytes = bufLength silentStereo * numberOfChannels silentStereo * 2 + 44"
    "field_at 4 4 bytes = 36 + bufLength silentStereo * numberOfChannels silentStereo * 2"
    "field_at 2 20 bytes = 1"
    "field_at 2 22 bytes = numberOfChannels silentStereo"
    "field_at 4 24 bytes = sampleRate silentStereo"
    "field_at 4 28 bytes = sampleRate silentStereo * numberOfChannels silentStereo * 2"
    "field_at 2 32 bytes = numberOfChannels silentStereo * 2"
    "field_at 2 34 bytes = 16"
    "field_at 4 40 bytes = bufLength silentStereo * numberOfChannels silentStereo * 2"
    by blast
  then have "bufferToWav silentStereo = Some bytes
        \<and> length bytes = 52
        \<and> field_at 4 4 bytes = 44
        \<and> field_at 2 20 bytes = 1
        \<and> field_at 2 22 bytes = 2
        \<and> field_at 4 24 bytes = 48000
        \<and> field_at 4 28 bytes = 192000
        \<and> field_at 2 32 bytes = 4
        \<and> field_at 2 34 bytes = 16
        \<and> field_at 4 40 bytes = 8"
    unfolding v by simp
  then show ?thesis using h by blast
qed

lemma quantize_full_scale:
  "quantize (Some 1) = 32767" "quantize (Some (-1)) = -32768"
  by (simp_all add: toInt32_def Let_def)

text \<open>
  C8, the code at two failing inputs. A mono buffer of one frame with the sample 1
  (which quantizes to 32767): the payload is two zero bytes. A mono buffer of 45 frames,
  1 in frames 0 to 43 and -1 in frame 44: the payload starts with the bytes of frame 44
  (-32768) and ends with 44 zero samples; frames 0 to 43 are not in the file.
\<close>

theorem first_frames_are_not_written:
  "quantize (sampleAt (channelData oneFrameBuffer ! 0) 0) = 32767
   \<and> bufferToWav oneFrameBuffer = Some (headerBytes oneFrameBuffer 46 @ [0, 0])
   \<and> quantize (sampleAt (channelData shortBuffer ! 0) 0) = 32767
   \<and> quantize (sampleAt (channelData shortBuffer ! 0) 44) = -32768
   \<and> bufferToWav shortBuffer = Some (headerBytes shortBuffer 134 @ [0, 128] @ replicate 88 0)"
proof -
  have one: "numberOfChannels oneFrameBuffer = 1" "bufLength oneFrameBuffer = 1"
    by (simp_all add: oneFrameBuffer_def numberOfChannels_def)
  have short: "numberOfChannels shortBuffer = 1" "bufLength shortBuffer = 45"
    by (simp_all add: shortBuffer_def numberOfChannels_def)
  have s0: "sampleAt (channelData oneFrameBuffer ! 0) 0 = Some 1"
    by (simp add: oneFrameBuffer_def sampleAt_def)
  have s1: "sampleAt (channelData shortBuffer ! 0) 0 = Some 1"
    by (simp add: shortBuffer_def sampleAt_def nth_append)
  have s44: "sampleAt (channelData shortBuffer ! 0) 44 = Some (-1)"
    by (simp add: shortBuffer_def sampleAt_def nth_append)
  have d1: "dataBytes oneFrameBuffer 44 = []"
    by (simp add: dataBytes_def one)
  have d2: "dataBytes shortBuffer 44 = [0, 128]"
    by (simp add: dataBytes_def frameBytes_def sampleBytes_def short s44 quantize_full_scale
        le_bytes_2 del: quantize.simps)
  have r2: "replicate 2 (0::nat) = [0, 0]"
    by (simp add: numeral_2_eq_2)
  show ?thesis
    using bufferToWav_bytes [of oneFrameBuffer] bufferToWav_bytes [of shortBuffer]
    by (simp add: one short s0 s1 s44 d1 d2 r2 quantize_full_scale del: quantize.simps)
qed

section \<open>Band parameters are used as stored\<close>

lemma fold_addLiveFilter:
  assumes "has_context s"
  shows "fst (fold addLiveFilter bs (prev, s))
           = last (prev # map Biquad [length (biquads s)..<length (biquads s) + length bs])
     \<and> biquads (snd (fold addLiveFilter bs (prev, s)))
           = biquads s @ map (\<lambda>band. \<lparr>bq_type = band_type band,
                 bq_frequency = frequency band, bq_Q = q band, bq_gain = gain band\<rparr>) bs
     \<and> connections (snd (fold addLiveFilter bs (prev, s)))
           = connections s
             \<union> set (zip (prev # map Biquad [length (biquads s)..<length (biquads s) + length bs])
                      (map Biquad [length (biquads s)..<length (biquads s) + length bs]))
     \<and> has_context (snd (fold addLiveFilter bs (prev, s)))
     \<and> noiseBuffer (snd (fold addLiveFilter bs (prev, s))) = noiseBuffer s
     \<and> sourceNode (snd (fold addLiveFilter bs (prev, s))) = sourceNode s
     \<and> fileBuffer (snd (fold addLiveFilter bs (prev, s))) = fileBuffer s
     \<and> playbackStartTime (snd (fold addLiveFilter bs (prev, s))) = playbackStartTime s
     \<and> playbackOffset (snd (fold addLiveFilter bs (prev, s))) = playbackOffset s"
  using assms
proof (induction bs arbitrary: prev s)
  case Nil
  then show ?case by simp
next
  case (Cons b bs)
  define s' where "s' = s\<lparr>biquads := biquads s @ [\<lparr>bq_type = band_type b,
                 bq_frequency = frequency b, bq_Q = q b, bq_gain = gain b\<rparr>],
                connections := insert (prev, Biquad (length (biquads s))) (connections s),
                filters := (filters s)(band_id b \<mapsto> length (biquads s))\<rparr>"
  have step: "fold addLiveFilter (b # bs) (prev, s)
                = fold addLiveFilter bs (Biquad (length (biquads s)), s')"
    using Cons.prems by (simp add: addLiveFilter_def s'_def Let_def)
  have ctx: "has_context s'" using Cons.prems by (simp add: s'_def)
  have upt: "[length (biquads s)..<length (biquads s) + length (b # bs)]
               = length (biquads s) # [length (biquads s')..<length (biquads s') + length bs]"
    by (simp add: s'_def upt_conv_Cons del: upt_Suc)
  show ?case
    unfolding step upt
    using Cons.IH [OF ctx, of "Biquad (length (biquads s))"]
    by (simp add: s'_def)
qed

lemma initContext_fields:
  "has_context (initContext s)" "biquads (initContext s) = biquads s"
  "sourceNode (initContext s) = sourceNode s" "fileBuffer (initContext s) = fileBuffer s"
  "playbackStartTime (initContext s) = playbackStartTime s"
  "playbackOffset (initContext s) = playbackOffset s"
  by (simp_all add: initContext_def)

lemma chainEdges_last:
  "chainEdges a ns b = insert (last (a # ns), b) (set (zip (a # ns) ns))"
  unfolding chainEdges_def
proof (induction ns arbitrary: a)
  case Nil
  show ?case by simp
next
  case (Cons n ns)
  have "set (zip (a # n # ns) ((n # ns) @ [b])) = insert (a, n) (set (zip (n # ns) (ns @ [b])))"
    by simp
  also have "\<dots> = insert (a, n) (insert (last (n # ns), b) (set (zip (n # ns) ns)))"
    unfolding Cons.IH ..
  finally show ?case by auto
qed

lemma updateFilters_result:
  "biquads (updateFilters bands s)
     = biquads s @ map (\<lambda>band. \<lparr>bq_type = band_type band,
           bq_frequency = frequency band, bq_Q = q band, bq_gain = gain band\<rparr>)
         (filter enabled bands)
   \<and> connections (updateFilters bands s)
     = disconnect AnalyserInput (connections (initContext s))
       \<union> chainEdges AnalyserInput
           (map Biquad [length (biquads s)..<length (biquads s) + length (filter enabled bands)])
           AnalyserOutput
   \<and> sourceNode (updateFilters bands s) = sourceNode s
   \<and> fileBuffer (updateFilters bands s) = fileBuffer s
   \<and> playbackOffset (updateFilters bands s) = playbackOffset s"
proof -
  define s1 where "s1 = (initContext s)\<lparr>connections := disconnect AnalyserInput (connections (initContext s)),
                    filters := Map.empty\<rparr>"
  have ctx: "has_context s1" by (simp add: s1_def initContext_fields)
  have b1: "biquads s1 = biquads s" by (simp add: s1_def initContext_fields)
  have unf: "updateFilters bands s
      = (snd (fold addLiveFilter (filter enabled bands) (AnalyserInput, s1)))
          \<lparr>connections := insert (fst (fold addLiveFilter (filter enabled bands) (AnalyserInput, s1)),
               AnalyserOutput)
             (connections (snd (fold addLiveFilter (filter enabled bands) (AnalyserInput, s1))))\<rparr>"
    by (simp add: updateFilters_def Let_def initContext_fields s1_def case_prod_beta)
  show ?thesis
    unfolding unf chainEdges_last
    using fold_addLiveFilter [OF ctx, of "filter enabled bands" AnalyserInput]
    by (simp add: b1) (simp add: s1_def initContext_fields)
qed

lemma fold_addOfflineFilter:
  "fst (fold addOfflineFilter bs (prev, c))
     = last (prev # map Biquad [length (oc_biquads c)..<length (oc_biquads c) + length bs])
   \<and> oc_biquads (snd (fold addOfflineFilter bs (prev, c)))
     = oc_biquads c @ map (\<lambda>band. \<lparr>bq_type = band_type band,
           bq_frequency = frequency band, bq_Q = q band, bq_gain = gain band\<rparr>) bs
   \<and> oc_connections (snd (fold addOfflineFilter bs (prev, c)))
     = oc_connections c
       \<union> set (zip (prev # map Biquad [length (oc_biquads c)..<length (oc_biquads c) + length bs])
                (map Biquad [length (oc_biquads c)..<length (oc_biquads c) + length bs]))
   \<and> oc_numberOfChannels (snd (fold addOfflineFilter bs (prev, c))) = oc_numberOfChannels c
   \<and> oc_length (snd (fold addOfflineFilter bs (prev, c))) = oc_length c
   \<and> oc_sampleRate (snd (fold addOfflineFilter bs (prev, c))) = oc_sampleRate c
   \<and> oc_sourceBuffer (snd (fold addOfflineFilter bs (prev, c))) = oc_sourceBuffer c"
proof (induction bs arbitrary: prev c)
  case Nil
  show ?case by simp
next
  case (Cons b bs)
  define c' where "c' = c\<lparr>oc_biquads := oc_biquads c @ [\<lparr>bq_type = band_type b,
                 bq_frequency = frequency b, bq_Q = q b, bq_gain = gain b\<rparr>],
                oc_connections := insert (prev, Biquad (length (oc_biquads c))) (oc_connections c)\<rparr>"
  have step: "fold addOfflineFilter (b # bs) (prev, c)
                = fold addOfflineFilter bs (Biquad (length (oc_biquads c)), c')"
    by (simp add: addOfflineFilter_def c'_def Let_def)
  have upt: "[length (oc_biquads c)..<length (oc_biquads c) + length (b # bs)]
               = length (oc_biquads c) # [length (oc_biquads c')..<length (oc_biquads c') + length bs]"
    by (simp add: c'_def upt_conv_Cons del: upt_Suc)
  show ?case
    unfolding step upt
    using Cons.IH [of "Biquad (length (oc_biquads c))" c']
    by (simp add: c'_def)
qed

lemma offlineGraph_result:
  "oc_biquads (offlineGraph bands fb)
     = map (\<lambda>band. \<lparr>bq_type = band_type band,
           bq_frequency = frequency band, bq_Q = q band, bq_gain = gain band\<rparr>)
         (filter enabled bands)
   \<and> oc_connections (offlineGraph bands fb)
     = chainEdges Source (map Biquad [0..<length (filter enabled bands)]) Destination
   \<and> oc_numberOfChannels (offlineGraph bands fb) = numberOfChannels fb
   \<and> oc_length (offlineGraph bands fb) = bufLength fb
   \<and> oc_sampleRate (offlineGraph bands fb) = sampleRate fb
   \<and> oc_sourceBuffer (offlineGraph bands fb) = fb"
proof -
  define c0 where "c0 = \<lparr>oc_numberOfChannels = numberOfChannels fb, oc_length = bufLength fb,
                         oc_sampleRate = sampleRate fb, oc_sourceBuffer = fb,
                         oc_biquads = [], oc_connections = {}\<rparr>"
  have unf: "offlineGraph bands fb
      = (snd (fold addOfflineFilter (filter enabled bands) (Source, c0)))
          \<lparr>oc_connections := insert (fst (fold addOfflineFilter (filter enabled bands) (Source, c0)),
               Destination)
             (oc_connections (snd (fold addOfflineFilter (filter enabled bands) (Source, c0))))\<rparr>"
    by (simp add: offlineGraph_def Let_def c0_def case_prod_beta)
  show ?thesis
    unfolding unf chainEdges_last
    using fold_addOfflineFilter [of "filter enabled bands" Source c0]
    by (simp add: c0_def)
qed

lemma far_a0_nonzero:
  fixes s A :: real
  assumes "- 1 \<le> s" "1 \<le> A"
  shows "1 + s / (2 * 1) / A \<noteq> 0"
proof -
  have "0 < 2 * A + s" using assms by linarith
  moreover have "1 + s / (2 * 1) / A = (2 * A + s) / (2 * A)"
    using assms by (simp add: field_simps)
  ultimately show ?thesis using assms by simp
qed

text \<open>
  C1, counterexample: a band constructed with frequency 999999 (Peaking, gain 6, Q 1).
  Clamping would give it the frequency 20000. The live filter built for a default band
  of frequency 999999 holds the frequency 999999. The magnitude derived from the band,
  queried at 999999 Hz, is 6 dB (the query hits the centre frequency 999999 the
  coefficients were derived for), while the magnitude derived from the clamped band is
  not 6 dB.
\<close>

theorem parameters_are_not_clamped:
  "frequency farBand = 999999
   \<and> frequency (spec_clampedBand farBand) = 20000
   \<and> map bq_frequency
         (biquads (updateFilters [createDefaultBand ''band-1'' 999999 0] newEngine))
       = [999999]
   \<and> getMagResponse 999999 farBand False = Some 6
   \<and> getMagResponse 999999 (spec_clampedBand farBand) False \<noteq> Some 6"
proof -
  have far: "enabled farBand" "frequency farBand = 999999" "gain farBand = 6" "q farBand = 1"
    "band_type farBand = Peaking"
    by (simp_all add: farBand_def createDefaultBand_def)
  have clamped: "enabled (spec_clampedBand farBand)"
    "frequency (spec_clampedBand farBand) = 20000" "gain (spec_clampedBand farBand) = 6"
    "q (spec_clampedBand farBand) = 1" "band_type (spec_clampedBand farBand) = Peaking"
    by (simp_all add: spec_clampedBand_def spec_clamp_def farBand_def createDefaultBand_def
        MIN_FREQ_def MAX_FREQ_def MIN_DB_def MAX_DB_def MIN_Q_def MAX_Q_def)
  have live: "map bq_frequency
         (biquads (updateFilters [createDefaultBand ''band-1'' 999999 0] newEngine))
       = [999999]"
    using updateFilters_result [of "[createDefaultBand ''band-1'' 999999 0]" newEngine]
    by (simp add: newEngine_def createDefaultBand_def)
  have s: "sin (2 * pi * 999999 / Fs) \<noteq> 0"
    unfolding trig_999999 using trig_8001(2) by simp
  have A: "1 \<le> (10::real) powr (6 / 40)"
    by (rule ge_one_powr_ge_zero) simp_all
  have a0: "1 + sin (2 * pi * 999999 / Fs) / (2 * 1) / 10 powr (6 / 40) \<noteq> 0"
    by (rule far_a0_nonzero [OF sin_ge_minus_one A])
  have centre: "getBiquadMagnitude 999999 Peaking 999999 1 6 = Some 6"
    using s _ a0 by (rule peaking_centre_general) simp_all
  have a0': "1 + sin (2 * pi * 20000 / Fs) / (2 * 1) / 10 powr (6 / 40) \<noteq> 0"
    unfolding trig_20000 by (rule peaking_a0_nonzero) simp_all
  have c: "cos (2 * pi * 999999 / Fs) \<noteq> cos (2 * pi * 20000 / Fs)"
    unfolding trig_999999 trig_20000 using trig_8001(1)
    by (smt (verit) real_sqrt_ge_zero divide_nonneg_pos)
  have off: "getBiquadMagnitude 999999 Peaking 20000 1 6 \<noteq> Some 6"
    using _ a0' c by (rule peaking_offcentre_ne) simp_all
  show ?thesis
    using live centre off
    by (simp add: far clamped getMagResponse_def)
qed

lemma inRange_clamp_id: "inRange band \<Longrightarrow> spec_clampedBand band = band"
  by (simp add: inRange_def spec_clampedBand_def spec_clamp_def)

lemma inRange_defined:
  assumes "inRange band"
  shows "\<exists>m. getMagResponse freq band d = Some m"
proof (cases "enabled band")
  case False
  then show ?thesis by (simp add: getMagResponse_def)
next
  case True
  from assms have f: "0 < frequency band" "frequency band < 24000" and Q: "0 < q band"
    by (simp_all add: inRange_def MIN_FREQ_def MAX_FREQ_def MIN_Q_def)
  show ?thesis
    using True getBiquadMagnitude_defined [OF f Q]
    by (simp add: getMagResponse_def Let_def)
qed

text \<open>
  C1, as amended: coefficient derivation and live-filter construction use a band's
  frequency, gain and Q exactly as stored, without clamping. For a band whose three
  values lie in their valid ranges (where clamping changes nothing) the magnitude is
  finite at every query frequency. A default band constructed with frequency 999999
  keeps that frequency, and its magnitude is finite (0 dB) at every query frequency.
\<close>

theorem parameters_used_as_stored:
  "(inRange band \<longrightarrow>
      spec_clampedBand band = band \<and> (\<exists>m. getMagResponse freq band d = Some m))
   \<and> map (\<lambda>n. (bq_frequency n, bq_gain n, bq_Q n))
         (drop (length (biquads s)) (biquads (updateFilters bands s)))
       = map (\<lambda>b. (frequency b, gain b, q b)) (filter enabled bands)
   \<and> (enabled band \<longrightarrow>
        getMagResponse freq band False
          = getBiquadMagnitude freq (band_type band) (frequency band) (q band) (gain band))
   \<and> getMagResponse freq (createDefaultBand i 999999 k) d = Some 0"
proof (intro conjI impI)
  assume "inRange band"
  then show "spec_clampedBand band = band" by (rule inRange_clamp_id)
next
  assume "inRange band"
  then show "\<exists>m. getMagResponse freq band d = Some m" by (rule inRange_defined)
next
  show "map (\<lambda>n. (bq_frequency n, bq_gain n, bq_Q n))
         (drop (length (biquads s)) (biquads (updateFilters bands s)))
       = map (\<lambda>b. (frequency b, gain b, q b)) (filter enabled bands)"
    using updateFilters_result [of bands s] by (simp add: comp_def)
next
  assume "enabled band"
  then show "getMagResponse freq band False
          = getBiquadMagnitude freq (band_type band) (frequency band) (q band) (gain band)"
    by (simp add: getMagResponse_def)
next
  show "getMagResponse freq (createDefaultBand i 999999 k) d = Some 0"
    by (rule default_band_999999_flat)
qed

text \<open>
  C1, witness: a default band at 1000 Hz, queried at 100 Hz.
\<close>

theorem parameters_used_as_stored_witness:
  "inRange (createDefaultBand ''band-2'' 1000 0)
   \<and> spec_clampedBand (createDefaultBand ''band-2'' 1000 0) = createDefaultBand ''band-2'' 1000 0
   \<and> (\<exists>m. getMagResponse 100 (createDefaultBand ''band-2'' 1000 0) False = Some m)
   \<and> enabled (createDefaultBand ''band-2'' 1000 0)
   \<and> getMagResponse 100 (createDefaultBand ''band-2'' 1000 0) False
        = getBiquadMagnitude 100 Peaking 1000 1 0
   \<and> getMagResponse 100 (createDefaultBand ''band-1'' 999999 0) False = Some 0"
proof -
  have r: "inRange (createDefaultBand ''band-2'' 1000 0)"
    by (simp add: inRange_def createDefaultBand_def MIN_FREQ_def MAX_FREQ_def MIN_DB_def
        MAX_DB_def MIN_Q_def MAX_Q_def)
  have e: "enabled (createDefaultBand ''band-2'' 1000 0)"
    "band_type (createDefaultBand ''band-2'' 1000 0) = Peaking"
    "frequency (createDefaultBand ''band-2'' 1000 0) = 1000"
    "q (createDefaultBand ''band-2'' 1000 0) = 1"
    "gain (createDefaultBand ''band-2'' 1000 0) = 0"
    by (simp_all add: createDefaultBand_def)
  note inst = parameters_used_as_stored
      [of "createDefaultBand ''band-2'' 1000 0" 100 False newEngine "[]" "''band-1''" 0]
  from inst r have a: "spec_clampedBand (createDefaultBand ''band-2'' 1000 0)
                         = createDefaultBand ''band-2'' 1000 0"
    and b: "\<exists>m. getMagResponse 100 (createDefaultBand ''band-2'' 1000 0) False = Some m"
    by blast+
  from inst e(1) have "getMagResponse 100 (createDefaultBand ''band-2'' 1000 0) False
      = getBiquadMagnitude 100 (band_type (createDefaultBand ''band-2'' 1000 0))
          (frequency (createDefaultBand ''band-2'' 1000 0))
          (q (createDefaultBand ''band-2'' 1000 0))
          (gain (createDefaultBand ''band-2'' 1000 0))"
    by blast
  then have c: "getMagResponse 100 (createDefaultBand ''band-2'' 1000 0) False
        = getBiquadMagnitude 100 Peaking 1000 1 0"
    by (simp only: e)
  from inst have z: "getMagResponse 100 (createDefaultBand ''band-1'' 999999 0) False = Some 0"
    by blast
  from r a b e(1) c z show ?thesis by blast
qed

section \<open>Starting and stopping sources\<close>

lemma disconnect_simps:
  "disconnect a {} = {}"
  "disconnect a (insert (b, c) conns)
     = (if b = a then disconnect a conns else insert (b, c) (disconnect a conns))"
  by (auto simp: disconnect_def)

lemma disconnect_no_edge: "(a, b) \<notin> disconnect a conns"
  by (simp add: disconnect_def)

lemma stop_idle: "sourceNode s = None \<Longrightarrow> stop t s = s"
  by (simp add: stop_def)

lemma stop_fields:
  "sourceNode (stop t s) = None"
  "fileBuffer (stop t s) = fileBuffer s"
  "has_context (stop t s) = has_context s"
  "noiseBuffer (stop t s) = noiseBuffer s"
  "playbackStartTime (stop t s) = playbackStartTime s"
  "biquads (stop t s) = biquads s"
  "(Source, n) \<notin> connections (stop t s) \<or> sourceNode s = None"
  by (auto simp: stop_def Let_def disconnect_def split: option.splits)

lemma start_mic_denied: "start SrcMic False t s = (None, stop t (initContext s))"
  by (simp add: start_def Let_def initContext_fields)

text \<open>
  C2, as amended: when a Microphone source is started and acquisition is denied, no error
  is reported to the caller; the engine is left as \<open>stop\<close> leaves it: a previously active
  source has been stopped and disconnected and the playback offset advanced (with no
  active source before, the graph state is unchanged); no source node is held and no
  connection is added, so no Microphone source is partially wired.
\<close>

theorem mic_denial_stops_prior_source:
  "start SrcMic False t s = (None, stop t (initContext s))
   \<and> sourceNode (snd (start SrcMic False t s)) = None
   \<and> connections (snd (start SrcMic False t s)) \<subseteq> connections (initContext s)
   \<and> (has_context s \<and> sourceNode s = None \<longrightarrow> start SrcMic False t s = (None, s))
   \<and> (has_context s \<and> sourceNode s \<noteq> None \<longrightarrow>
        connections (snd (start SrcMic False t s)) = disconnect Source (connections s)
        \<and> playbackOffset (snd (start SrcMic False t s))
            = playbackOffset s + (t - playbackStartTime s))"
proof (intro conjI impI)
  show "start SrcMic False t s = (None, stop t (initContext s))"
    by (rule start_mic_denied)
  show "sourceNode (snd (start SrcMic False t s)) = None"
    by (simp add: start_mic_denied stop_fields)
  show "connections (snd (start SrcMic False t s)) \<subseteq> connections (initContext s)"
    by (cases "sourceNode (initContext s)")
       (auto simp: start_mic_denied stop_def Let_def disconnect_def)
next
  assume "has_context s \<and> sourceNode s = None"
  then show "start SrcMic False t s = (None, s)"
    by (simp add: start_mic_denied initContext_def stop_idle)
next
  assume h: "has_context s \<and> sourceNode s \<noteq> None"
  then show "connections (snd (start SrcMic False t s)) = disconnect Source (connections s)"
    by (auto simp: start_mic_denied initContext_def stop_def Let_def)
next
  assume h: "has_context s \<and> sourceNode s \<noteq> None"
  then show "playbackOffset (snd (start SrcMic False t s))
            = playbackOffset s + (t - playbackStartTime s)"
    by (auto simp: start_mic_denied initContext_def stop_def Let_def)
qed

lemma noisePlaying_eq:
  "noisePlaying =
     \<lparr>has_context = True, noiseBuffer = True,
      sourceNode = Some (AudioBufferSourceNode NoiseBuffer True 0), biquads = [],
      connections = {(AnalyserInput, AnalyserOutput), (Source, AnalyserInput),
                     (AnalyserOutput, MasterGain), (MasterGain, Destination)},
      filters = Map.empty, fileBuffer = None, playbackStartTime = 0, playbackOffset = 0\<rparr>"
  by (simp add: noisePlaying_def start_def initContext_def newEngine_def stop_def Let_def)

text \<open>
  C2, counterexample: the noise source is playing when a Microphone start is denied at
  time 1. No error is reported, and afterwards the noise source is gone, its connection
  to the input analyser is removed and the playback offset has moved from 0 to 1.
\<close>

theorem mic_denial_changes_graph_silently:
  "sourceNode noisePlaying = Some (AudioBufferSourceNode NoiseBuffer True 0)
   \<and> (Source, AnalyserInput) \<in> connections noisePlaying
   \<and> playbackOffset noisePlaying = 0
   \<and> fst (start SrcMic False 1 noisePlaying) = None
   \<and> sourceNode (snd (start SrcMic False 1 noisePlaying)) = None
   \<and> (Source, AnalyserInput) \<notin> connections (snd (start SrcMic False 1 noisePlaying))
   \<and> playbackOffset (snd (start SrcMic False 1 noisePlaying)) = 1"
  by (simp add: start_mic_denied noisePlaying_eq initContext_def stop_def Let_def
      disconnect_simps)

text \<open>
  C2, witness: the denied Microphone start with the noise source playing, and with no
  source playing.
\<close>

theorem mic_denial_stops_prior_source_witness:
  "has_context noisePlaying \<and> sourceNode noisePlaying \<noteq> None
   \<and> start SrcMic False 1 noisePlaying = (None, stop 1 (initContext noisePlaying))
   \<and> connections (snd (start SrcMic False 1 noisePlaying))
       = disconnect Source (connections noisePlaying)
   \<and> playbackOffset (snd (start SrcMic False 1 noisePlaying)) = 1
   \<and> has_context (initContext newEngine) \<and> sourceNode (initContext newEngine) = None
   \<and> start SrcMic False 1 (initContext newEngine) = (None, initContext newEngine)"
proof -
  have a: "has_context noisePlaying \<and> sourceNode noisePlaying \<noteq> None"
    "playbackOffset noisePlaying = 0" "playbackStartTime noisePlaying = 0"
    by (simp_all add: noisePlaying_eq)
  have b: "has_context (initContext newEngine) \<and> sourceNode (initContext newEngine) = None"
    by (simp add: initContext_def newEngine_def)
  from mic_denial_stops_prior_source [of 1 noisePlaying] a(1)
  have 1: "start SrcMic False 1 noisePlaying = (None, stop 1 (initContext noisePlaying))"
    and 2: "connections (snd (start SrcMic False 1 noisePlaying))
       = disconnect Source (connections noisePlaying)"
    and p3: "playbackOffset (snd (start SrcMic False 1 noisePlaying))
       = playbackOffset noisePlaying + (1 - playbackStartTime noisePlaying)"
    by blast+
  from p3 have 3: "playbackOffset (snd (start SrcMic False 1 noisePlaying)) = 1"
    unfolding a(2) a(3) by simp
  from mic_denial_stops_prior_source [of 1 "initContext newEngine"] b
  have 4: "start SrcMic False 1 (initContext newEngine) = (None, initContext newEngine)"
    by blast
  from a(1) b 1 2 3 4 show ?thesis by blast
qed

text \<open>
  With no decoded buffer, a File start fails the guard of the file branch and ends in
  the last branch of \<open>start\<close>: whatever the state, it leaves an oscillator source,
  connected to the input analyser.
\<close>

lemma file_start_without_buffer_result:
  assumes "fileBuffer s = None"
  shows "start SrcFile g t s
      = (None, (stop t (initContext s))
           \<lparr>sourceNode := Some (OscillatorNode ''sawtooth'' 100),
            connections := insert (AnalyserInput, AnalyserOutput)
               (insert (Source, AnalyserInput) (connections (stop t (initContext s))))\<rparr>)"
  using assms by (simp add: start_def Let_def initContext_fields stop_fields)

text \<open>
  C3, the code at two failing inputs. With no decoded buffer, starting File playback on
  a fresh engine reports no error and leaves a sawtooth oscillator source connected to
  the input analyser; with the noise source playing, it replaces the noise source by
  the oscillator and moves the playback offset. In both a source node is constructed.
\<close>

theorem file_start_without_buffer_starts_oscillator:
  "fileBuffer newEngine = None
   \<and> fst (start SrcFile False 0 newEngine) = None
   \<and> sourceNode (snd (start SrcFile False 0 newEngine)) = Some (OscillatorNode ''sawtooth'' 100)
   \<and> (Source, AnalyserInput) \<in> connections (snd (start SrcFile False 0 newEngine))
   \<and> fileBuffer noisePlaying = None
   \<and> sourceNode noisePlaying = Some (AudioBufferSourceNode NoiseBuffer True 0)
   \<and> sourceNode (snd (start SrcFile False 1 noisePlaying))
       = Some (OscillatorNode ''sawtooth'' 100)
   \<and> playbackOffset (snd (start SrcFile False 1 noisePlaying)) \<noteq> playbackOffset noisePlaying"
  by (simp add: start_def noisePlaying_eq initContext_def newEngine_def stop_def Let_def)

section \<open>The export chain and the live chain\<close>

lemma bufferToWav_length:
  "\<exists>bytes. bufferToWav b = Some bytes
     \<and> length bytes = bufLength b * numberOfChannels b * 2 + 44"
proof -
  have dl: "length (dataBytes b 44) = 2 * numberOfChannels b * (bufLength b - 44)"
    by (simp add: dataBytes_def length_concat comp_def sum_list_triv)
  have "length (headerBytes b (bufLength b * numberOfChannels b * 2 + 44)
             @ dataBytes b 44
             @ replicate (2 * numberOfChannels b * min 44 (bufLength b)) 0)
          = bufLength b * numberOfChannels b * 2 + 44"
    by (cases "44 \<le> bufLength b") (simp_all add: dl min_def algebra_simps)
  then show ?thesis using bufferToWav_bytes [of b] by simp
qed

text \<open>
  C4: for every band collection and decoded buffer, the offline context of the export is
  given one filter per enabled band, in collection order, with the band's type,
  frequency, Q and gain, and so is the live rebuild (the filter nodes it adds are the
  same list); both connect them as one chain (source to destination, input analyser to
  output analyser). The offline context is created with the channel count, length and
  sample rate of the source buffer and plays the source buffer. The export returns the
  encoding of the buffer that rendering this offline context yields; whenever rendering
  yields a buffer of the context's shape, that buffer has the source buffer's length,
  channel count and sample rate.
\<close>

theorem export_chain_equals_live_chain:
  "oc_biquads (offlineGraph bands fb)
     = map (\<lambda>band. \<lparr>bq_type = band_type band, bq_frequency = frequency band,
                     bq_Q = q band, bq_gain = gain band\<rparr>) (filter enabled bands)
   \<and> drop (length (biquads s)) (biquads (updateFilters bands s))
     = oc_biquads (offlineGraph bands fb)
   \<and> oc_connections (offlineGraph bands fb)
     = chainEdges Source (map Biquad [0..<length (filter enabled bands)]) Destination
   \<and> connections (updateFilters bands s)
     = disconnect AnalyserInput (connections (initContext s))
       \<union> chainEdges AnalyserInput
           (map Biquad [length (biquads s)..<length (biquads s) + length (filter enabled bands)])
           AnalyserOutput
   \<and> oc_numberOfChannels (offlineGraph bands fb) = numberOfChannels fb
   \<and> oc_length (offlineGraph bands fb) = bufLength fb
   \<and> oc_sampleRate (offlineGraph bands fb) = sampleRate fb
   \<and> oc_sourceBuffer (offlineGraph bands fb) = fb
   \<and> (fileBuffer s = Some fb
      \<longrightarrow> (\<exists>bytes. bufferToWav (render (offlineGraph bands fb)) = Some bytes
                \<and> exportAudio render bands s = Inr bytes))
   \<and> (fileBuffer s = Some fb
        \<and> numberOfChannels (render (offlineGraph bands fb))
            = oc_numberOfChannels (offlineGraph bands fb)
        \<and> bufLength (render (offlineGraph bands fb)) = oc_length (offlineGraph bands fb)
        \<and> sampleRate (render (offlineGraph bands fb)) = oc_sampleRate (offlineGraph bands fb)
      \<longrightarrow> numberOfChannels (render (offlineGraph bands fb)) = numberOfChannels fb
          \<and> bufLength (render (offlineGraph bands fb)) = bufLength fb
          \<and> sampleRate (render (offlineGraph bands fb)) = sampleRate fb
          \<and> (\<exists>bytes. bufferToWav (render (offlineGraph bands fb)) = Some bytes
                \<and> exportAudio render bands s = Inr bytes
                \<and> length bytes = bufLength fb * numberOfChannels fb * 2 + 44))"
proof -
  note off = offlineGraph_result [of bands fb]
  note live = updateFilters_result [of bands s]
  obtain bytes where b: "bufferToWav (render (offlineGraph bands fb)) = Some bytes"
      "length bytes = bufLength (render (offlineGraph bands fb))
                        * numberOfChannels (render (offlineGraph bands fb)) * 2 + 44"
    using bufferToWav_length by blast
  have enc: "exportAudio render bands s = Inr bytes" if "fileBuffer s = Some fb"
    using that b(1) by (simp add: exportAudio_def Let_def)
  have rendered: "\<exists>bytes. bufferToWav (render (offlineGraph bands fb)) = Some bytes
                \<and> exportAudio render bands s = Inr bytes"
    if "fileBuffer s = Some fb"
    using b(1) enc [OF that] by blast
  have shaped: "\<exists>bytes. bufferToWav (render (offlineGraph bands fb)) = Some bytes
                \<and> exportAudio render bands s = Inr bytes
                \<and> length bytes = bufLength fb * numberOfChannels fb * 2 + 44"
    if "fileBuffer s = Some fb"
      "numberOfChannels (render (offlineGraph bands fb)) = numberOfChannels fb"
      "bufLength (render (offlineGraph bands fb)) = bufLength fb"
    using b enc [OF that(1)] that(2,3) by simp
  show ?thesis
    using off live rendered shaped by (simp add: comp_def)
qed

text \<open>
  C4, witness: three bands, the second disabled, a silent mono buffer of 45 frames and a
  renderer whose samples depend on the chain it is given (minus half the number of its
  filters). The exported bytes are the encoding of the rendered buffer, not of the
  source buffer.
\<close>

theorem export_chain_equals_live_chain_witness:
  "fileBuffer monoLoaded = Some silentMono
   \<and> numberOfChannels (markingRenderer (offlineGraph threeBands silentMono))
        = oc_numberOfChannels (offlineGraph threeBands silentMono)
   \<and> bufLength (markingRenderer (offlineGraph threeBands silentMono))
        = oc_length (offlineGraph threeBands silentMono)
   \<and> sampleRate (markingRenderer (offlineGraph threeBands silentMono))
        = oc_sampleRate (offlineGraph threeBands silentMono)
   \<and> oc_biquads (offlineGraph threeBands silentMono)
        = [\<lparr>bq_type = Peaking, bq_frequency = 12000, bq_Q = 1, bq_gain = 30\<rparr>,
           \<lparr>bq_type = HighPass, bq_frequency = 100, bq_Q = 1, bq_gain = 0\<rparr>]
   \<and> biquads (updateFilters threeBands monoLoaded)
        = oc_biquads (offlineGraph threeBands silentMono)
   \<and> bufLength (markingRenderer (offlineGraph threeBands silentMono)) = 45
   \<and> numberOfChannels (markingRenderer (offlineGraph threeBands silentMono)) = 1
   \<and> sampleRate (markingRenderer (offlineGraph threeBands silentMono)) = 48000
   \<and> exportAudio markingRenderer threeBands monoLoaded
        = Inr (headerBytes silentMono 134 @ [0, 128] @ replicate 88 0)
   \<and> bufferToWav silentMono = Some (headerBytes silentMono 134 @ replicate 90 0)"
proof -
  define r where "r = markingRenderer (offlineGraph threeBands silentMono)"
  note inst = export_chain_equals_live_chain [of threeBands silentMono monoLoaded markingRenderer]
  have fb: "fileBuffer monoLoaded = Some silentMono" "biquads monoLoaded = []"
    by (simp_all add: monoLoaded_def loadAudioFile_def initContext_def newEngine_def Let_def)
  have v: "bufLength silentMono = 45" "numberOfChannels silentMono = 1"
    "sampleRate silentMono = 48000"
    by (simp_all add: silentMono_def numberOfChannels_def)
  have en: "filter enabled threeBands
      = [loudBand ''band-1'', (createDefaultBand ''band-3'' 100 0)\<lparr>band_type := HighPass\<rparr>]"
    by (simp add: threeBands_def loudBand_def createDefaultBand_def)
  from inst have dims: "oc_numberOfChannels (offlineGraph threeBands silentMono) = 1"
    "oc_length (offlineGraph threeBands silentMono) = 45"
    "oc_sampleRate (offlineGraph threeBands silentMono) = 48000"
    unfolding v by blast+
  have contract:
    "numberOfChannels r = oc_numberOfChannels (offlineGraph threeBands silentMono)"
    "bufLength r = oc_length (offlineGraph threeBands silentMono)"
    "sampleRate r = oc_sampleRate (offlineGraph threeBands silentMono)"
    by (simp_all add: r_def markingRenderer_def numberOfChannels_def)
  from inst have chain: "oc_biquads (offlineGraph threeBands silentMono)
     = map (\<lambda>band. \<lparr>bq_type = band_type band, bq_frequency = frequency band,
                     bq_Q = q band, bq_gain = gain band\<rparr>) (filter enabled threeBands)"
    and same: "drop (length (biquads monoLoaded)) (biquads (updateFilters threeBands monoLoaded))
     = oc_biquads (offlineGraph threeBands silentMono)"
    by blast+
  from chain have c1: "oc_biquads (offlineGraph threeBands silentMono)
        = [\<lparr>bq_type = Peaking, bq_frequency = 12000, bq_Q = 1, bq_gain = 30\<rparr>,
           \<lparr>bq_type = HighPass, bq_frequency = 100, bq_Q = 1, bq_gain = 0\<rparr>]"
    unfolding en by (simp add: loudBand_def createDefaultBand_def)
  from same have c2: "biquads (updateFilters threeBands monoLoaded)
        = oc_biquads (offlineGraph threeBands silentMono)"
    unfolding fb by simp
  from inst fb(1) contract have "numberOfChannels r = numberOfChannels silentMono
      \<and> bufLength r = bufLength silentMono \<and> sampleRate r = sampleRate silentMono"
    unfolding r_def by blast
  then have rv: "bufLength r = 45" "numberOfChannels r = 1" "sampleRate r = 48000"
    unfolding v by simp_all
  have rdata: "channelData r = [replicate 45 (- 1)]"
    by (simp add: r_def markingRenderer_def dims c1)
  have hdr: "headerBytes r 134 = headerBytes silentMono 134"
    by (simp add: headerBytes_def rv v del: le_bytes.simps)
  have s44: "sampleAt (channelData r ! 0) 44 = Some (- 1)"
    by (simp add: rdata sampleAt_def)
  have z44: "sampleAt (channelData silentMono ! 0) 44 = Some 0"
    by (simp add: silentMono_def sampleAt_def)
  have q0: "quantize (Some 0) = 0"
    by (simp add: toInt32_def Let_def)
  have d1: "dataBytes r 44 = [0, 128]"
    by (simp add: dataBytes_def frameBytes_def sampleBytes_def rv s44 quantize_full_scale
        le_bytes_2 del: quantize.simps)
  have d2: "dataBytes silentMono 44 = [0, 0]"
    by (simp add: dataBytes_def frameBytes_def sampleBytes_def v z44 q0
        le_bytes_2 del: quantize.simps)
  have enc_r: "bufferToWav r = Some (headerBytes silentMono 134 @ [0, 128] @ replicate 88 0)"
    using bufferToWav_bytes [of r] by (simp add: rv d1 hdr)
  have enc_s: "bufferToWav silentMono = Some (headerBytes silentMono 134 @ replicate 90 0)"
  proof -
    have "[0, 0] @ replicate 88 (0::nat) = replicate 90 0"
      by (simp add: replicate_append_same [symmetric] numeral_eq_Suc)
    then show ?thesis
      using bufferToWav_bytes [of silentMono] by (simp add: v d2)
  qed
  from inst fb(1) have "\<exists>bytes. bufferToWav r = Some bytes
                \<and> exportAudio markingRenderer threeBands monoLoaded = Inr bytes"
    unfolding r_def by blast
  then have ex: "exportAudio markingRenderer threeBands monoLoaded
        = Inr (headerBytes silentMono 134 @ [0, 128] @ replicate 88 0)"
    unfolding enc_r by simp
  from fb(1) contract c1 c2 rv ex enc_s show ?thesis
    unfolding r_def by blast
qed

section \<open>The playback offset\<close>

lemma jsRem_nonneg:
  assumes "0 \<le> x" "0 < d"
  shows "jsRem x d = Some (x - d * of_int \<lfloor>x / d\<rfloor>)"
  using assms by (simp add: jsRem_def)

lemma jsRem_shift_iff:
  assumes x: "0 \<le> x" and e: "0 \<le> e" and d: "0 < d"
  shows "jsRem (x + e) d = jsRem x d \<longleftrightarrow> (\<exists>k::int. e = of_int k * d)"
proof
  assume "jsRem (x + e) d = jsRem x d"
  then have "x + e - d * of_int \<lfloor>(x + e) / d\<rfloor> = x - d * of_int \<lfloor>x / d\<rfloor>"
    using x e d by (simp add: jsRem_nonneg)
  then have "e = of_int (\<lfloor>(x + e) / d\<rfloor> - \<lfloor>x / d\<rfloor>) * d"
    by (simp add: algebra_simps)
  then show "\<exists>k::int. e = of_int k * d" ..
next
  assume "\<exists>k::int. e = of_int k * d"
  then obtain k :: int where k: "e = of_int k * d" ..
  have "(x + e) / d = x / d + of_int k"
    using d by (simp add: k field_simps)
  then have "\<lfloor>(x + e) / d\<rfloor> = \<lfloor>x / d\<rfloor> + k"
    by simp
  then have "x + e - d * of_int \<lfloor>(x + e) / d\<rfloor> = x - d * of_int \<lfloor>x / d\<rfloor>"
    by (simp add: k algebra_simps)
  then show "jsRem (x + e) d = jsRem x d"
    using x e d by (simp add: jsRem_nonneg)
qed

lemma stop_adds_elapsed:
  assumes "has_context s" "sourceNode s \<noteq> None"
  shows "playbackOffset (stop t s) = playbackOffset s + (t - playbackStartTime s)"
  using assms by (auto simp: stop_def Let_def)

lemma start_other_source:
  assumes "has_context s" "kind = SrcNoise \<or> kind = SrcOscillator \<or> kind = SrcMic \<and> granted"
  shows "sourceNode (snd (start kind granted t s)) \<noteq> None
     \<and> has_context (snd (start kind granted t s))
     \<and> fileBuffer (snd (start kind granted t s)) = fileBuffer s
     \<and> playbackStartTime (snd (start kind granted t s)) = playbackStartTime s
     \<and> playbackOffset (snd (start kind granted t s)) = playbackOffset (stop t s)"
  using assms
  by (cases kind) (auto simp: start_def Let_def initContext_def stop_fields)

lemma start_file_idle:
  assumes "has_context s" "sourceNode s = None" "fileBuffer s = Some fb" "0 < duration fb"
    "0 \<le> playbackOffset s"
  shows "sourceNode (snd (start SrcFile g t s))
           = Some (AudioBufferSourceNode FileBuffer True
               (playbackOffset s - duration fb * of_int \<lfloor>playbackOffset s / duration fb\<rfloor>))"
  using assms
  by (simp add: start_def Let_def initContext_def stop_idle jsRem_nonneg)

lemma start_after_stop:
  assumes "has_context s"
  shows "start kind granted t s = start kind granted t (stop t s)"
proof -
  have "initContext s = s" "initContext (stop t s) = stop t s"
    using assms by (simp_all add: initContext_def stop_fields)
  moreover have "stop t (stop t s) = stop t s"
    by (rule stop_idle) (simp add: stop_fields)
  ultimately show ?thesis
    using assms by (simp add: start_def Let_def stop_fields)
qed

text \<open>
  C10, as amended: stopping any active source adds the time elapsed since the recorded
  file-playback start timestamp to the cumulative playback offset. Consequently, with a
  file loaded, playing and then stopping a Noise, Oscillator or Microphone source moves
  the cumulative offset by that elapsed time, a later File resume begins at the moved
  offset modulo the file's duration, and this position differs from the one a resume
  would have had before exactly when the elapsed time is not a whole multiple of the
  duration.
\<close>

theorem stop_shifts_file_resume:
  "(has_context s \<and> sourceNode s \<noteq> None \<longrightarrow>
      playbackOffset (stop t s) = playbackOffset s + (t - playbackStartTime s))
   \<and> (has_context s \<and> fileBuffer s = Some fb \<and> 0 < duration fb
        \<and> (kind = SrcNoise \<or> kind = SrcOscillator \<or> kind = SrcMic \<and> granted)
        \<and> 0 \<le> playbackOffset (stop t1 s) \<and> playbackStartTime s \<le> t2
      \<longrightarrow> playbackOffset (stop t2 (snd (start kind granted t1 s)))
            = playbackOffset (stop t1 s) + (t2 - playbackStartTime s)
          \<and> (\<exists>off. jsRem (playbackOffset (stop t1 s) + (t2 - playbackStartTime s))
                       (duration fb) = Some off
                \<and> sourceNode (snd (start SrcFile g t3 (stop t2 (snd (start kind granted t1 s)))))
                    = Some (AudioBufferSourceNode FileBuffer True off))
          \<and> (\<exists>off. jsRem (playbackOffset (stop t1 s)) (duration fb) = Some off
                \<and> sourceNode (snd (start SrcFile g t1 s))
                    = Some (AudioBufferSourceNode FileBuffer True off))
          \<and> (jsRem (playbackOffset (stop t1 s) + (t2 - playbackStartTime s)) (duration fb)
                = jsRem (playbackOffset (stop t1 s)) (duration fb)
              \<longleftrightarrow> (\<exists>k::int. t2 - playbackStartTime s = of_int k * duration fb)))"
proof (intro conjI impI)
  assume "has_context s \<and> sourceNode s \<noteq> None"
  then show "playbackOffset (stop t s) = playbackOffset s + (t - playbackStartTime s)"
    by (simp add: stop_adds_elapsed)
next
  assume h: "has_context s \<and> fileBuffer s = Some fb \<and> 0 < duration fb
        \<and> (kind = SrcNoise \<or> kind = SrcOscillator \<or> kind = SrcMic \<and> granted)
        \<and> 0 \<le> playbackOffset (stop t1 s) \<and> playbackStartTime s \<le> t2"
  define x where "x = playbackOffset (stop t1 s)"
  define e where "e = t2 - playbackStartTime s"
  define s1 where "s1 = snd (start kind granted t1 s)"
  define s2 where "s2 = stop t2 s1"
  from h have ctx: "has_context s" and fb: "fileBuffer s = Some fb" and d: "0 < duration fb"
    and k: "kind = SrcNoise \<or> kind = SrcOscillator \<or> kind = SrcMic \<and> granted"
    and x: "0 \<le> x" and e: "0 \<le> e"
    by (simp_all add: x_def e_def)
  have s1: "sourceNode s1 \<noteq> None" "has_context s1" "fileBuffer s1 = Some fb"
    "playbackStartTime s1 = playbackStartTime s" "playbackOffset s1 = x"
    using start_other_source [OF ctx k, of t1] fb by (simp_all add: s1_def x_def)
  have o2: "playbackOffset s2 = x + e"
    unfolding s2_def using stop_adds_elapsed [OF s1(2) s1(1), of t2] s1(4,5)
    by (simp add: e_def)
  have s2: "has_context s2" "sourceNode s2 = None" "fileBuffer s2 = Some fb"
    by (simp_all add: s2_def stop_fields s1)
  have xe: "0 \<le> x + e" using x e by simp
  have later: "sourceNode (snd (start SrcFile g t3 s2))
      = Some (AudioBufferSourceNode FileBuffer True
               (x + e - duration fb * of_int \<lfloor>(x + e) / duration fb\<rfloor>))"
    using start_file_idle [OF s2 d, of g t3] xe unfolding o2 by simp
  have s0: "has_context (stop t1 s)" "sourceNode (stop t1 s) = None"
    "fileBuffer (stop t1 s) = Some fb"
    by (simp_all add: stop_fields ctx fb)
  have direct: "sourceNode (snd (start SrcFile g t1 s))
      = Some (AudioBufferSourceNode FileBuffer True
               (x - duration fb * of_int \<lfloor>x / duration fb\<rfloor>))"
    unfolding start_after_stop [OF ctx, of SrcFile g t1]
    using start_file_idle [OF s0 d, of g t1] x unfolding x_def by simp
  show "playbackOffset (stop t2 (snd (start kind granted t1 s)))
            = playbackOffset (stop t1 s) + (t2 - playbackStartTime s)"
    using o2 by (simp add: s2_def s1_def x_def e_def)
  show "\<exists>off. jsRem (playbackOffset (stop t1 s) + (t2 - playbackStartTime s))
                       (duration fb) = Some off
                \<and> sourceNode (snd (start SrcFile g t3 (stop t2 (snd (start kind granted t1 s)))))
                    = Some (AudioBufferSourceNode FileBuffer True off)"
    using later jsRem_nonneg [OF xe d]
    by (simp add: s2_def s1_def x_def e_def)
  show "\<exists>off. jsRem (playbackOffset (stop t1 s)) (duration fb) = Some off
                \<and> sourceNode (snd (start SrcFile g t1 s))
                    = Some (AudioBufferSourceNode FileBuffer True off)"
    using direct jsRem_nonneg [OF x d] by (simp add: x_def)
  show "jsRem (playbackOffset (stop t1 s) + (t2 - playbackStartTime s)) (duration fb)
                = jsRem (playbackOffset (stop t1 s)) (duration fb)
              \<longleftrightarrow> (\<exists>k::int. t2 - playbackStartTime s = of_int k * duration fb)"
    using jsRem_shift_iff [OF x e d] by (simp add: x_def e_def)
qed

lemma twoSecondLoaded_eq:
  "twoSecondLoaded =
     \<lparr>has_context = True, noiseBuffer = True, sourceNode = None, biquads = [],
      connections = {(AnalyserOutput, MasterGain), (MasterGain, Destination)},
      filters = Map.empty, fileBuffer = Some twoSecondBuffer,
      playbackStartTime = 0, playbackOffset = 0\<rparr>"
  by (simp add: twoSecondLoaded_def loadAudioFile_def initContext_def newEngine_def Let_def)

lemma twoSecond_duration: "duration twoSecondBuffer = 2"
  by (simp add: duration_def twoSecondBuffer_def)

lemma twoSecond_facts:
  "has_context twoSecondLoaded" "fileBuffer twoSecondLoaded = Some twoSecondBuffer"
  "sourceNode twoSecondLoaded = None" "playbackStartTime twoSecondLoaded = 0"
  "playbackOffset twoSecondLoaded = 0" "stop t twoSecondLoaded = twoSecondLoaded"
  by (simp_all add: twoSecondLoaded_eq stop_def)

text \<open>
  C10, counterexample: a file of duration 2 is loaded and nothing has played. Noise is
  started at time 1 and stopped at time 2: the cumulative offset moves from 0 to 2, and
  a later File resume begins at offset 0, where it would have begun before.
\<close>

theorem resume_offset_can_stay_the_same:
  "fileBuffer twoSecondLoaded = Some twoSecondBuffer
   \<and> sourceNode (snd (start SrcNoise True 1 twoSecondLoaded))
       = Some (AudioBufferSourceNode NoiseBuffer True 0)
   \<and> playbackOffset twoSecondLoaded = 0
   \<and> playbackOffset (stop 2 (snd (start SrcNoise True 1 twoSecondLoaded))) = 2
   \<and> sourceNode (snd (start SrcFile False 1 twoSecondLoaded))
       = Some (AudioBufferSourceNode FileBuffer True 0)
   \<and> sourceNode (snd (start SrcFile False 2
                         (stop 2 (snd (start SrcNoise True 1 twoSecondLoaded)))))
       = Some (AudioBufferSourceNode FileBuffer True 0)"
proof -
  have n: "snd (start SrcNoise True 1 twoSecondLoaded)
      = twoSecondLoaded\<lparr>sourceNode := Some (AudioBufferSourceNode NoiseBuffer True 0),
           connections := {(AnalyserInput, AnalyserOutput), (Source, AnalyserInput),
                     (AnalyserOutput, MasterGain), (MasterGain, Destination)}\<rparr>"
    by (simp add: start_def Let_def initContext_def twoSecondLoaded_eq stop_def)
  have st: "stop 2 (snd (start SrcNoise True 1 twoSecondLoaded))
      = twoSecondLoaded\<lparr>playbackOffset := 2,
           connections := {(AnalyserInput, AnalyserOutput),
                     (AnalyserOutput, MasterGain), (MasterGain, Destination)}\<rparr>"
    unfolding n by (simp add: stop_def Let_def twoSecondLoaded_eq disconnect_simps)
  have r0: "jsRem 0 2 = Some 0" "jsRem 2 2 = Some 0"
    by (simp_all add: jsRem_def)
  have direct: "sourceNode (snd (start SrcFile False 1 twoSecondLoaded))
       = Some (AudioBufferSourceNode FileBuffer True 0)"
    by (simp add: start_def Let_def initContext_def twoSecond_facts twoSecond_duration r0)
  have later: "sourceNode (snd (start SrcFile False 2
           (twoSecondLoaded\<lparr>playbackOffset := 2,
              connections := {(AnalyserInput, AnalyserOutput),
                     (AnalyserOutput, MasterGain), (MasterGain, Destination)}\<rparr>)))
       = Some (AudioBufferSourceNode FileBuffer True 0)"
    by (simp add: start_def Let_def initContext_def stop_def twoSecond_facts
        twoSecond_duration r0)
  show ?thesis
    using direct later by (simp add: st) (simp add: n twoSecond_facts)
qed

text \<open>
  C10, witness: as the counterexample, with the noise stopped at time 3; the later File
  resume begins at offset 1 instead of 0.
\<close>

theorem stop_shifts_file_resume_witness:
  "has_context (snd (start SrcNoise True 1 twoSecondLoaded))
   \<and> sourceNode (snd (start SrcNoise True 1 twoSecondLoaded)) \<noteq> None
   \<and> playbackOffset (stop 3 (snd (start SrcNoise True 1 twoSecondLoaded))) = 3
   \<and> jsRem 3 2 = Some 1
   \<and> sourceNode (snd (start SrcFile False 4
                         (stop 3 (snd (start SrcNoise True 1 twoSecondLoaded)))))
       = Some (AudioBufferSourceNode FileBuffer True 1)
   \<and> sourceNode (snd (start SrcFile False 1 twoSecondLoaded))
       = Some (AudioBufferSourceNode FileBuffer True 0)
   \<and> \<not> (\<exists>k::int. (3::real) = of_int k * 2)"
proof -
  have n: "has_context (snd (start SrcNoise True 1 twoSecondLoaded))"
    "sourceNode (snd (start SrcNoise True 1 twoSecondLoaded)) \<noteq> None"
    "playbackOffset (snd (start SrcNoise True 1 twoSecondLoaded)) = 0"
    "playbackStartTime (snd (start SrcNoise True 1 twoSecondLoaded)) = 0"
    using start_other_source [of twoSecondLoaded SrcNoise True 1]
    by (simp_all add: twoSecond_facts)
  have r: "jsRem 3 2 = Some 1" "jsRem 0 2 = Some 0"
    by (simp_all add: jsRem_def)
  have hyp: "has_context twoSecondLoaded \<and> fileBuffer twoSecondLoaded = Some twoSecondBuffer
        \<and> 0 < duration twoSecondBuffer
        \<and> (SrcNoise = SrcNoise \<or> SrcNoise = SrcOscillator \<or> SrcNoise = SrcMic \<and> True)
        \<and> 0 \<le> playbackOffset (stop 1 twoSecondLoaded)
        \<and> playbackStartTime twoSecondLoaded \<le> 3"
    by (simp add: twoSecond_facts twoSecond_duration)
  note inst1 = stop_shifts_file_resume
    [of "snd (start SrcNoise True 1 twoSecondLoaded)" 3 twoSecondBuffer SrcNoise True 1 3 False 4]
  note inst2 = stop_shifts_file_resume
    [of twoSecondLoaded 3 twoSecondBuffer SrcNoise True 1 3 False 4]
  from inst1 n(1,2) have "playbackOffset (stop 3 (snd (start SrcNoise True 1 twoSecondLoaded)))
      = playbackOffset (snd (start SrcNoise True 1 twoSecondLoaded))
        + (3 - playbackStartTime (snd (start SrcNoise True 1 twoSecondLoaded)))"
    by blast
  then have a: "playbackOffset (stop 3 (snd (start SrcNoise True 1 twoSecondLoaded))) = 3"
    unfolding n by simp
  from inst2 hyp have b: "\<exists>off. jsRem (playbackOffset (stop 1 twoSecondLoaded)
                      + (3 - playbackStartTime twoSecondLoaded)) (duration twoSecondBuffer) = Some off
                \<and> sourceNode (snd (start SrcFile False 4
                      (stop 3 (snd (start SrcNoise True 1 twoSecondLoaded)))))
                    = Some (AudioBufferSourceNode FileBuffer True off)"
    and c: "\<exists>off. jsRem (playbackOffset (stop 1 twoSecondLoaded)) (duration twoSecondBuffer) = Some off
                \<and> sourceNode (snd (start SrcFile False 1 twoSecondLoaded))
                    = Some (AudioBufferSourceNode FileBuffer True off)"
    and d: "jsRem (playbackOffset (stop 1 twoSecondLoaded)
                      + (3 - playbackStartTime twoSecondLoaded)) (duration twoSecondBuffer)
                = jsRem (playbackOffset (stop 1 twoSecondLoaded)) (duration twoSecondBuffer)
              \<longleftrightarrow> (\<exists>k::int. 3 - playbackStartTime twoSecondLoaded
                                 = of_int k * duration twoSecondBuffer)"
    by blast+
  from b have b': "sourceNode (snd (start SrcFile False 4
                      (stop 3 (snd (start SrcNoise True 1 twoSecondLoaded)))))
                    = Some (AudioBufferSourceNode FileBuffer True 1)"
    by (simp add: twoSecond_facts twoSecond_duration r)
  from c have c': "sourceNode (snd (start SrcFile False 1 twoSecondLoaded))
                    = Some (AudioBufferSourceNode FileBuffer True 0)"
    by (simp add: twoSecond_facts twoSecond_duration r)
  from d have d': "\<not> (\<exists>k::int. (3::real) = of_int k * 2)"
    by (simp add: twoSecond_facts twoSecond_duration r)
  from n(1,2) a r(1) b' c' d' show ?thesis by blast
qed

end
